theory Spec2Isabelle
  imports Complex_Main "HOL-Library.Sublist" "HOL-Library.Word"
begin

section \<open>JavaScript values used by server.js\<close>

text \<open>
  A JavaScript string is a sequence of UTF-16 code units. It is modelled as a
  \<^typ>\<open>string\<close>, one \<^typ>\<open>char\<close> for each code unit; the model therefore covers the
  strings whose code units are below 256. A query parameter or object property that
  may be absent (\<open>null\<close>, \<open>undefined\<close>) is an \<^typ>\<open>string option\<close>.
\<close>

text \<open>\<open>String.prototype.trim\<close>: the WhiteSpace and LineTerminator code units below 256.\<close>

definition isWhiteSpace :: "char \<Rightarrow> bool" where
  "isWhiteSpace c \<longleftrightarrow>
     c \<in> set [CHR 0x09, CHR 0x0A, CHR 0x0B, CHR 0x0C, CHR 0x0D, CHR 0x20, CHR 0xA0]"

definition trim :: "string \<Rightarrow> string" where
  "trim s = rev (dropWhile isWhiteSpace (rev (dropWhile isWhiteSpace s)))"

text \<open>\<open>String.prototype.toLowerCase\<close> on code units below 256: A-Z and the
  Latin-1 capitals U+00C0..U+00DE (U+00D7, the multiplication sign, apart).\<close>

definition lowerChar :: "char \<Rightarrow> char" where
  "lowerChar c =
     (let n = (of_char c :: nat)
      in if (65 \<le> n \<and> n \<le> 90) \<or> (192 \<le> n \<and> n \<le> 222 \<and> n \<noteq> 215)
         then char_of (n + 32) else c)"

definition toLowerCase :: "string \<Rightarrow> string" where
  "toLowerCase s = map lowerChar s"

text \<open>\<open>s.split(',')\<close>: never the empty array; \<open>''.split(',')\<close> is \<open>['']\<close>.\<close>

fun split_comma :: "string \<Rightarrow> string list" where
  "split_comma [] = [[]]"
| "split_comma (c # cs) =
     (if c = CHR '','' then [] # split_comma cs
      else (case split_comma cs of
              [] \<Rightarrow> [[c]]
            | w # ws \<Rightarrow> (c # w) # ws))"

text \<open>\<open>s.includes(sub)\<close>.\<close>

fun str_includes :: "string \<Rightarrow> string \<Rightarrow> bool" where
  "str_includes [] sub \<longleftrightarrow> sub = []"
| "str_includes (c # cs) sub \<longleftrightarrow> prefix sub (c # cs) \<or> str_includes cs sub"

text \<open>\<open>x || d\<close> on a possibly absent string: \<open>null\<close> and \<open>''\<close> are both falsy.\<close>

definition or_default :: "string option \<Rightarrow> string \<Rightarrow> string" where
  "or_default x d = (case x of None \<Rightarrow> d | Some v \<Rightarrow> if v = [] then d else v)"

text \<open>\<open>new Set(xs)\<close> and \<open>set.add(x)\<close>: a JavaScript Set keeps its elements in
  insertion order and compares them with strict equality, so it is a duplicate-free
  list; \<open>Array.from(set)\<close> is that list.\<close>

definition set_add :: "'a \<Rightarrow> 'a list \<Rightarrow> 'a list" where
  "set_add x acc = (if x \<in> set acc then acc else acc @ [x])"

definition new_Set :: "'a list \<Rightarrow> 'a list" where
  "new_Set xs = fold set_add xs []"

text \<open>\<open>url.searchParams\<close>: the query as the list of its name/value pairs, in order.
  \<open>get\<close> is the first value of a name, \<open>getAll\<close> every value.\<close>

type_synonym query = "(string \<times> string) list"

definition getAll :: "query \<Rightarrow> string \<Rightarrow> string list" where
  "getAll q name = map snd (filter (\<lambda>kv. fst kv = name) q)"

definition get :: "query \<Rightarrow> string \<Rightarrow> string option" where
  "get q name = map_of q name"

section \<open>Target languages\<close>

text \<open>\<open>parseTargetLanguages\<close> (server.js, lines 566-574).\<close>

definition parseTargetLanguages :: "query \<Rightarrow> string list" where
  "parseTargetLanguages q =
     (let langsFromRepeats = concat (map split_comma (getAll q ''targetLang''));
          langsFromList = split_comma (or_default (get q ''targetLangs'') '''');
          all = filter (\<lambda>v. v \<noteq> []) (map trim (langsFromRepeats @ langsFromList))
      in if all \<noteq> [] then new_Set all else [''English''])"

text \<open>\<open>normalizeTargetLanguageLabel\<close> (lines 308-313).\<close>

definition normalizeTargetLanguageLabel :: "string \<Rightarrow> string" where
  "normalizeTargetLanguageLabel language =
     (let lower = toLowerCase language
      in if str_includes lower ''cantonese''
         then ''Cantonese (Traditional Chinese, Cantonese phrasing)''
         else if str_includes lower ''mandarin''
         then ''Mandarin Chinese (Simplified Chinese, Mainland usage)''
         else language)"

text \<open>\<open>channelName\<close> (line 564).\<close>

definition channelName :: "string \<Rightarrow> string \<Rightarrow> string" where
  "channelName room language =
     or_default (Some room) ''default'' @ '':'' @
     or_default (Some (toLowerCase language)) ''unknown''"

section \<open>Configuration and the external services\<close>

type_synonym bytes = "8 word list"

text \<open>An \<open>Error\<close> object, with its message.\<close>

datatype jserror = Error string

datatype message = Message (role: string) (content: string)

text \<open>The requests the server sends to the API: \<open>/audio/transcriptions\<close> (model,
  file bytes, file name, file type, language when given), \<open>/chat/completions\<close> (model,
  messages; the temperature is always 0.2) and \<open>/audio/speech\<close> (model, input, voice).\<close>

datatype call =
    Transcription string bytes string string "string option"
  | ChatCompletion string "message list"
  | Speech string string string

text \<open>What \<open>fetch\<close> gives back: the promise rejects (no connection, or a body that does
  not parse), or there is a response with a status that is not ok and its text, or an
  ok response with its parsed body.\<close>

datatype 'a reply = Rejected string | Status nat string | Ok 'a

text \<open>The \<open>usage\<close> object of a completion (each count may be missing), and the part
  of a completion the server reads: \<open>choices?.[0]?.message?.content\<close> and \<open>usage\<close>.\<close>

record usage_report =
  reported_prompt_tokens :: "int option"
  reported_completion_tokens :: "int option"
  reported_total_tokens :: "int option"

record completion =
  first_content :: "string option"
  usage :: "usage_report option"

text \<open>The history of a run is the list of the requests sent so far, each with whether
  it came back ok. A service answers a request given the history, so that the same request
  may be answered differently at different times.\<close>

type_synonym history = "(call \<times> bool) list"

record env =
  OPENAI_API_KEY :: string
  OPENAI_TRANSCRIBE_MODEL :: string
  OPENAI_TRANSLATE_MODEL :: string
  OPENAI_TTS_MODEL :: string
  OPENAI_TTS_VOICE :: string
  transcriptions :: "history \<Rightarrow> call \<Rightarrow> string option reply"
  completions :: "history \<Rightarrow> call \<Rightarrow> completion reply"
  speech :: "history \<Rightarrow> call \<Rightarrow> bytes reply"
  base64 :: "bytes \<Rightarrow> string"

section \<open>The state of the process\<close>

type_synonym conn = nat

record session_usage =
  prompt_tokens :: int
  completion_tokens :: int
  total_tokens :: int

text \<open>The payloads written on an event stream, before \<open>JSON.stringify\<close>: the ready
  event of a channel, and a translation event (room, language, transcript, translation,
  audioBase64).\<close>

datatype payload =
    Ready string
  | Translation string string string string "string option"

datatype frame = Data payload | Ping

text \<open>
  \<^item> \<open>subscribers\<close>: the Map from a channel to its Set of response objects;
  \<^item> \<open>roomPasscodes\<close>: the Map from a room to its passcode;
  \<^item> \<open>sessionUsage\<close>;
  \<^item> \<open>requests\<close>: the history of the requests sent to the API;
  \<^item> \<open>delivered\<close>: what has been written on the open event streams, in order;
  \<^item> \<open>destroyed\<close>: the connections whose socket is gone (a write there is lost);
  \<^item> \<open>streams\<close>: for each accepted subscription, the connection and channel that its
    keep-alive timer and its close handler hold.
\<close>

record server =
  subscribers :: "string \<rightharpoonup> conn list"
  roomPasscodes :: "string \<rightharpoonup> string"
  sessionUsage :: session_usage
  requests :: history
  delivered :: "(conn \<times> frame) list"
  destroyed :: "conn list"
  streams :: "(conn \<times> string) list"

section \<open>Requests to the API\<close>

fun decimal :: "nat \<Rightarrow> string" where
  "decimal n =
     (if n < 10 then [char_of (48 + n)]
      else decimal (n div 10) @ [char_of (48 + n mod 10)])"

declare decimal.simps [simp del]

text \<open>\<open>fetchJson\<close> and \<open>fetchArrayBuffer\<close> (lines 323-339) differ only in how the ok
  body is read. The request is recorded in the history.\<close>

definition fetch ::
  "(history \<Rightarrow> call \<Rightarrow> 'a reply) \<Rightarrow> call \<Rightarrow> server \<Rightarrow> server \<times> (jserror + 'a)" where
  "fetch api c s =
     (case api (requests s) c of
        Rejected m \<Rightarrow> (s\<lparr>requests := requests s @ [(c, False)]\<rparr>, Inl (Error m))
      | Status st m \<Rightarrow>
          (s\<lparr>requests := requests s @ [(c, False)]\<rparr>,
           Inl (Error (''OpenAI request failed ('' @ decimal st @ ''): '' @ m)))
      | Ok v \<Rightarrow> (s\<lparr>requests := requests s @ [(c, True)]\<rparr>, Inr v))"

text \<open>\<open>normalizeMimeType\<close> (lines 341-344) and \<open>extensionForAudioMimeType\<close>
  (lines 346-367).\<close>

definition normalizeMimeType :: "string option \<Rightarrow> string" where
  "normalizeMimeType v =
     (case v of
        None \<Rightarrow> []
      | Some x \<Rightarrow> if x = [] then []
                  else toLowerCase (trim (takeWhile (\<lambda>c. c \<noteq> CHR '';'') x)))"

definition extensionForAudioMimeType :: "string \<Rightarrow> string" where
  "extensionForAudioMimeType mimeType =
     (if mimeType = ''audio/webm'' then ''webm''
      else if mimeType = ''audio/ogg'' \<or> mimeType = ''audio/oga'' then ''ogg''
      else if mimeType = ''audio/wav'' \<or> mimeType = ''audio/x-wav'' then ''wav''
      else if mimeType = ''audio/mpeg'' \<or> mimeType = ''audio/mp3'' then ''mp3''
      else if mimeType = ''audio/mp4'' \<or> mimeType = ''audio/m4a'' then ''mp4''
      else if mimeType = ''audio/flac'' then ''flac''
      else ''webm'')"

text \<open>\<open>transcribeAudio\<close> (lines 369-388): \<open>result.text\<close> may be missing.\<close>

definition transcribeAudio ::
  "env \<Rightarrow> bytes \<Rightarrow> string \<Rightarrow> string \<Rightarrow> server \<Rightarrow> server \<times> (jserror + string option)" where
  "transcribeAudio env audioBuffer sourceLanguage audioMimeType s =
     (let normalizedMimeType =
            or_default (Some (normalizeMimeType (Some audioMimeType))) ''audio/webm'';
          extension = extensionForAudioMimeType normalizedMimeType
      in fetch (transcriptions env)
           (Transcription (OPENAI_TRANSCRIBE_MODEL env) audioBuffer (''audio.'' @ extension)
              normalizedMimeType (if sourceLanguage = [] then None else Some sourceLanguage))
           s)"

text \<open>\<open>refineTranscript\<close> (lines 390-417). No usage is added here.\<close>

definition refine_messages :: "string \<Rightarrow> string \<Rightarrow> message list" where
  "refine_messages rawTranscript sourceLanguage =
     [Message ''system''
        ''You clean ASR transcripts. Fix obvious recognition mistakes, punctuation, and casing while preserving meaning. Do NOT add or remove sentences. Keep language same as input.'',
      Message ''user''
        (''Language: '' @ or_default (Some sourceLanguage) ''unknown / mixed'' @
         [CHR 0x0A] @ ''Transcript:'' @ [CHR 0x0A] @ rawTranscript)]"

definition refineTranscript ::
  "env \<Rightarrow> string option \<Rightarrow> string \<Rightarrow> server \<Rightarrow> server \<times> (jserror + string)" where
  "refineTranscript env rawTranscript sourceLanguage s =
     (case rawTranscript of
        None \<Rightarrow> (s, Inr [])
      | Some raw \<Rightarrow>
          if raw = [] \<or> length (trim raw) < 2 then (s, Inr raw)
          else (case fetch (completions env)
                       (ChatCompletion (OPENAI_TRANSLATE_MODEL env)
                          (refine_messages raw sourceLanguage)) s of
                  (s', Inl e) \<Rightarrow> (s', Inl e)
                | (s', Inr completion) \<Rightarrow>
                    (s', Inr (or_default (map_option trim (first_content completion)) raw))))"

text \<open>\<open>translateText\<close> (lines 419-478). \<open>sysParts.join(' ')\<close>; the ten example
  characters of the first Cantonese sentence lie outside the code units modelled and are
  written by their code points.\<close>

fun join_space :: "string list \<Rightarrow> string" where
  "join_space [] = []"
| "join_space [p] = p"
| "join_space (p # ps) = p @ '' '' @ join_space ps"

definition sysParts :: "string \<Rightarrow> string list" where
  "sysParts targetLanguage =
     [''You are a translation engine. Translate user text to '' @ targetLanguage @ ''.'',
      ''Use the provided context for coherence (names, pronouns, tense).'',
      ''Return ONLY the translation of the new text, not the context.'',
      ''If the text is already in the target language, return it unchanged.'',
      ''Never reply with explanations, apologies, or placeholders. Never return empty output.'']
     @ (if str_includes (toLowerCase targetLanguage) ''cantonese''
        then [''Write in spoken Cantonese using Traditional Chinese characters (e.g., U+55BA/U+5605/U+4F62/U+4F62U+54CB/U+5514/U+5187/U+5497/U+5566/U+5587/U+5571).'',
              ''Avoid Mainland Mandarin lexical choices; prefer colloquial Cantonese phrasing and particles.'',
              ''Do not mix Simplified Chinese; keep vocabulary natural for Cantonese listeners.'']
        else [])"

definition translate_messages :: "string \<Rightarrow> string \<Rightarrow> string \<Rightarrow> message list" where
  "translate_messages txt targetLanguage ctx =
     [Message ''system'' (join_space (sysParts targetLanguage)),
      (if ctx \<noteq> []
       then Message ''user''
              (''Context (previous transcript):'' @ [CHR 0x0A] @ ctx @ [CHR 0x0A, CHR 0x0A] @
               ''New text to translate:'' @ [CHR 0x0A] @ txt @ [CHR 0x0A, CHR 0x0A] @
               ''Translate only the new text, keep consistent with context.'')
       else Message ''user'' txt)]"

text \<open>\<open>sessionUsage.x += completion.usage.x || 0\<close>, when the completion has a usage.\<close>

definition add_usage :: "usage_report option \<Rightarrow> session_usage \<Rightarrow> session_usage" where
  "add_usage rep u =
     (case rep of
        None \<Rightarrow> u
      | Some r \<Rightarrow>
          u\<lparr>total_tokens := total_tokens u + (case reported_total_tokens r of None \<Rightarrow> 0 | Some n \<Rightarrow> n),
            prompt_tokens := prompt_tokens u + (case reported_prompt_tokens r of None \<Rightarrow> 0 | Some n \<Rightarrow> n),
            completion_tokens :=
              completion_tokens u + (case reported_completion_tokens r of None \<Rightarrow> 0 | Some n \<Rightarrow> n)\<rparr>)"

text \<open>The inner \<open>tryTranslate\<close> (lines 450-469): one request with the current messages.\<close>

definition tryTranslate :: "env \<Rightarrow> message list \<Rightarrow> server \<Rightarrow> server \<times> (jserror + string)" where
  "tryTranslate env messages s =
     (case fetch (completions env) (ChatCompletion (OPENAI_TRANSLATE_MODEL env) messages) s of
        (s', Inl e) \<Rightarrow> (s', Inl e)
      | (s', Inr completion) \<Rightarrow>
          (s'\<lparr>sessionUsage := add_usage (usage completion) (sessionUsage s')\<rparr>,
           Inr (or_default (map_option trim (first_content completion)) [])))"

text \<open>\<open>messages[0].content += ' Output must not be empty. ...'\<close> (line 474).\<close>

definition strengthened :: "message list \<Rightarrow> message list" where
  "strengthened messages =
     (case messages of
        [] \<Rightarrow> []
      | m # ms \<Rightarrow>
          Message (role m)
            (content m @ '' Output must not be empty. Provide best-effort translation.'') # ms)"

definition translateText ::
  "env \<Rightarrow> string \<Rightarrow> string \<Rightarrow> string \<Rightarrow> server \<Rightarrow> server \<times> (jserror + string)" where
  "translateText env txt targetLanguage ctx s =
     (let messages = translate_messages txt targetLanguage ctx
      in case tryTranslate env messages s of
           (s1, Inl e) \<Rightarrow> (s1, Inl e)
         | (s1, Inr r) \<Rightarrow>
             if r = [] then tryTranslate env (strengthened messages) s1
             else (s1, Inr r))"

text \<open>\<open>synthesizeSpeech\<close> (lines 480-499). The value read is an ArrayBuffer, which has
  no \<open>usage\<close> property, so the usage branch never runs. \<open>toString('base64')\<close> is the
  \<open>base64\<close> of the environment.\<close>

definition synthesizeSpeech :: "env \<Rightarrow> string \<Rightarrow> server \<Rightarrow> server \<times> (jserror + string)" where
  "synthesizeSpeech env txt s =
     (case fetch (speech env) (Speech (OPENAI_TTS_MODEL env) txt (OPENAI_TTS_VOICE env)) s of
        (s', Inl e) \<Rightarrow> (s', Inl e)
      | (s', Inr audioBuffer) \<Rightarrow> (s', Inr (base64 env audioBuffer)))"

section \<open>The channel broadcaster\<close>

text \<open>\<open>res.write(data)\<close> does not raise: on a connection whose socket is gone the
  data is lost, and the callers ignore what \<open>write\<close> returns.\<close>

definition res_write :: "conn \<Rightarrow> frame \<Rightarrow> server \<Rightarrow> server" where
  "res_write res f s =
     (if res \<in> set (destroyed s) then s else s\<lparr>delivered := delivered s @ [(res, f)]\<rparr>)"

text \<open>\<open>addSubscriber\<close> (lines 505-508), \<open>removeSubscriber\<close> (lines 510-515) and
  \<open>broadcast\<close> (lines 517-524).\<close>

definition addSubscriber :: "string \<Rightarrow> conn \<Rightarrow> server \<Rightarrow> server" where
  "addSubscriber channel res s =
     (case subscribers s channel of
        None \<Rightarrow> s\<lparr>subscribers := (subscribers s)(channel \<mapsto> set_add res [])\<rparr>
      | Some st \<Rightarrow> s\<lparr>subscribers := (subscribers s)(channel \<mapsto> set_add res st)\<rparr>)"

definition removeSubscriber :: "string \<Rightarrow> conn \<Rightarrow> server \<Rightarrow> server" where
  "removeSubscriber channel res s =
     (case subscribers s channel of
        None \<Rightarrow> s
      | Some st \<Rightarrow>
          (let st' = removeAll res st
           in if st' = [] then s\<lparr>subscribers := (subscribers s)(channel := None)\<rparr>
              else s\<lparr>subscribers := (subscribers s)(channel \<mapsto> st')\<rparr>))"

definition broadcast :: "string \<Rightarrow> payload \<Rightarrow> server \<Rightarrow> server" where
  "broadcast channel pl s =
     (case subscribers s channel of
        None \<Rightarrow> s
      | Some st \<Rightarrow> fold (\<lambda>res. res_write res (Data pl)) st s)"

section \<open>The subscribe handler\<close>

datatype result = Result (language: string) (translation: string) (audioBase64: "string option")

text \<open>A JSON response is its status and its body: an error object, or the object of a
  successful submit (transcript, results, and the usage: the session usage, the cost and
  the model). The other response is the open event stream of a subscription.\<close>

datatype body =
    ErrorBody string
  | Success string "result list" session_usage rat string

datatype response = Json nat body | EventStream

text \<open>\<open>handleSubscribeRequest\<close> (lines 526-561), for the response object \<open>res\<close> of the
  request and its query.\<close>

definition handleSubscribeRequest :: "conn \<Rightarrow> query \<Rightarrow> server \<Rightarrow> server \<times> response" where
  "handleSubscribeRequest res q s =
     (let channel = or_default (get q ''channel'') [];
          room = or_default (Some (trim (or_default (get q ''room'') []))) ''default'';
          passcode = trim (or_default (get q ''passcode'') [])
      in if channel = [] then (s, Json 400 (ErrorBody ''Missing channel query param''))
         else if (case roomPasscodes s room of
                    None \<Rightarrow> False
                  | Some requiredPass \<Rightarrow> requiredPass \<noteq> [] \<and> requiredPass \<noteq> passcode)
         then (s, Json 403 (ErrorBody ''Invalid passcode''))
         else (let s1 = addSubscriber channel res s;
                   s2 = res_write res (Data (Ready channel)) s1
               in (s2\<lparr>streams := streams s2 @ [(res, channel)]\<rparr>, EventStream)))"

text \<open>The timer of a subscription (line 553) writes a ping comment on its connection;
  the close handler (lines 557-560) stops the timer and removes the subscriber.\<close>

definition keepAlive :: "conn \<Rightarrow> server \<Rightarrow> server" where
  "keepAlive res s = fold (\<lambda>_. res_write res Ping) (filter (\<lambda>p. fst p = res) (streams s)) s"

definition on_close :: "conn \<Rightarrow> server \<Rightarrow> server" where
  "on_close res s =
     (let mine = filter (\<lambda>p. fst p = res) (streams s);
          s1 = s\<lparr>streams := filter (\<lambda>p. fst p \<noteq> res) (streams s)\<rparr>
      in fold (\<lambda>p. removeSubscriber (snd p) res) mine s1)"

section \<open>Usage and cost\<close>

record pricing =
  input_rate :: rat
  output_rate :: rat

text \<open>\<open>OPENAI_PRICING\<close> (lines 274-278), in USD per 1K tokens; only the table's own
  entries are modelled.\<close>

definition OPENAI_PRICING :: "string \<rightharpoonup> pricing" where
  "OPENAI_PRICING =
     map_of [(''gpt-4o-mini'', \<lparr>input_rate = 15 / 100000, output_rate = 6 / 10000\<rparr>),
             (''gpt-4o-mini-tts'', \<lparr>input_rate = 2 / 10000, output_rate = 2 / 10000\<rparr>)]"

text \<open>\<open>Number(x.toFixed(6))\<close> on exact numbers: the nearest multiple of \<open>10\<^sup>-\<^sup>6\<close>, a tie
  going away from zero; from \<open>10\<^sup>2\<^sup>1\<close> on \<open>toFixed\<close> prints the number itself. The
  numbers of the program are IEEE doubles; the model computes with rationals.\<close>

definition toFixed6 :: "rat \<Rightarrow> rat" where
  "toFixed6 x =
     (if \<bar>x\<bar> \<ge> 10 ^ 21 then x
      else if x < 0 then - (of_int \<lfloor>(- x) * 10 ^ 6 + 1 / 2\<rfloor> / 10 ^ 6)
      else of_int \<lfloor>x * 10 ^ 6 + 1 / 2\<rfloor> / 10 ^ 6)"

text \<open>\<open>estimateCost\<close> (lines 719-726).\<close>

definition estimateCost :: "env \<Rightarrow> server \<Rightarrow> rat" where
  "estimateCost env s =
     (let translatePricing =
            (case OPENAI_PRICING (OPENAI_TRANSLATE_MODEL env) of
               None \<Rightarrow> \<lparr>input_rate = 0, output_rate = 0\<rparr>
             | Some p \<Rightarrow> p);
          cost = (of_int (prompt_tokens (sessionUsage s)) / 1000) * input_rate translatePricing +
                 (of_int (completion_tokens (sessionUsage s)) / 1000) * output_rate translatePricing
      in toFixed6 cost)"

text \<open>\<open>resetSessionUsage\<close> (lines 715-717).\<close>

definition resetSessionUsage :: "server \<Rightarrow> server" where
  "resetSessionUsage s =
     s\<lparr>sessionUsage := \<lparr>prompt_tokens = 0, completion_tokens = 0, total_tokens = 0\<rparr>\<rparr>"

section \<open>The submit handler\<close>

text \<open>A submit request: the query of its URL, the two headers that may carry the MIME
  type, and what reading the body gives (the bytes, or the error of the stream).\<close>

record submit =
  url :: query
  x_audio_mime_type :: "string option"
  content_type :: "string option"
  payload_read :: "jserror + bytes"

text \<open>One branch of the fan-out, the function mapped over the target languages
  (lines 614-632).\<close>

definition translateBranch ::
  "env \<Rightarrow> string \<Rightarrow> string \<Rightarrow> string \<Rightarrow> bool \<Rightarrow> string \<Rightarrow> server \<Rightarrow> server \<times> (jserror + result)" where
  "translateBranch env room transcript ctx wantsAudio lang s =
     (let normalizedLang = normalizeTargetLanguageLabel lang
      in case translateText env transcript normalizedLang ctx s of
           (s1, Inl e) \<Rightarrow> (s1, Inl e)
         | (s1, Inr tr) \<Rightarrow>
             (case (if wantsAudio
                    then (case synthesizeSpeech env tr s1 of
                            (s2, Inl e) \<Rightarrow> (s2, Inl e)
                          | (s2, Inr b) \<Rightarrow> (s2, Inr (Some b)))
                    else (s1, Inr None)) of
                (s2, Inl e) \<Rightarrow> (s2, Inl e)
              | (s2, Inr audio) \<Rightarrow>
                  (broadcast (channelName room lang) (Translation room lang transcript tr audio) s2,
                   Inr (Result lang tr audio))))"

text \<open>
  \<open>targetLanguages.map(async ...)\<close> starts every branch, and no branch is cancelled when
  another one fails. The branches interleave at their requests; the model runs them one
  after the other, in the order of the list, which is one of the schedules. Each branch
  ends with its result or with the error it raised.
\<close>

fun fanout ::
  "(string \<Rightarrow> server \<Rightarrow> server \<times> (jserror + result)) \<Rightarrow> string list \<Rightarrow> server
     \<Rightarrow> server \<times> (jserror + result) list" where
  "fanout branch [] s = (s, [])"
| "fanout branch (l # ls) s =
     (case branch l s of
        (s1, r) \<Rightarrow> (case fanout branch ls s1 of (s2, rs) \<Rightarrow> (s2, r # rs)))"

text \<open>\<open>Promise.all\<close>: the values in the order of the promises, or the error of a
  promise that rejected (in the model, of the first one in the list).\<close>

fun Promise_all :: "('e + 'a) list \<Rightarrow> 'e + 'a list" where
  "Promise_all [] = Inr []"
| "Promise_all (Inl e # rs) = Inl e"
| "Promise_all (Inr v # rs) = (case Promise_all rs of Inl e \<Rightarrow> Inl e | Inr vs \<Rightarrow> Inr (v # vs))"

text \<open>The \<open>catch\<close> of the handler (lines 644-647).\<close>

definition caught :: "jserror \<Rightarrow> response" where
  "caught e = (case e of Error m \<Rightarrow> Json 500 (ErrorBody (or_default (Some m) ''Unexpected server error'')))"

text \<open>\<open>handleTranslateRequest\<close> (lines 576-648).\<close>

definition handleTranslateRequest :: "env \<Rightarrow> submit \<Rightarrow> server \<Rightarrow> server \<times> response" where
  "handleTranslateRequest env req s =
     (if OPENAI_API_KEY env = [] then (s, Json 500 (ErrorBody ''Missing OPENAI_API_KEY''))
      else
        let targetLanguages = parseTargetLanguages (url req);
            sourceLanguage = or_default (get (url req) ''sourceLang'') [];
            outputMode = or_default (get (url req) ''outputMode'') ''text'';
            room = or_default (get (url req) ''room'') ''default'';
            passcode = trim (or_default (get (url req) ''passcode'') []);
            ctx = or_default (get (url req) ''context'') []
        in if passcode = [] then (s, Json 400 (ErrorBody ''Missing passcode''))
           else if (case roomPasscodes s room of
                      None \<Rightarrow> False
                    | Some existing \<Rightarrow> existing \<noteq> [] \<and> existing \<noteq> passcode)
           then (s, Json 403 (ErrorBody ''Room passcode mismatch''))
           else
             let s0 = s\<lparr>roomPasscodes := (roomPasscodes s)(room \<mapsto> passcode)\<rparr>;
                 audioMimeType =
                   normalizeMimeType
                     (if or_default (x_audio_mime_type req) [] \<noteq> [] then x_audio_mime_type req
                      else content_type req)
             in case payload_read req of
                  Inl e \<Rightarrow> (s0, caught e)
                | Inr audioBuffer \<Rightarrow>
                    if audioBuffer = [] then (s0, Json 400 (ErrorBody ''No audio content received.''))
                    else (case transcribeAudio env audioBuffer sourceLanguage audioMimeType s0 of
                            (s1, Inl e) \<Rightarrow> (s1, caught e)
                          | (s1, Inr transcriptRaw) \<Rightarrow>
                        (case refineTranscript env transcriptRaw sourceLanguage s1 of
                            (s2, Inl e) \<Rightarrow> (s2, caught e)
                          | (s2, Inr transcript) \<Rightarrow>
                        (let wantsAudio = (outputMode = ''audio'' \<or> outputMode = ''both'')
                         in case fanout (translateBranch env room transcript ctx wantsAudio)
                                   targetLanguages s2 of
                              (s3, outcomes) \<Rightarrow>
                                (case Promise_all outcomes of
                                   Inl e \<Rightarrow> (s3, caught e)
                                 | Inr results \<Rightarrow>
                                     (s3, Json 200
                                            (Success transcript results (sessionUsage s3)
                                               (estimateCost env s3)
                                               (OPENAI_TRANSLATE_MODEL env))))))))"

section \<open>Runs of the server\<close>

text \<open>What happens to the process, one event at a time: a submit request, a subscribe
  request on a new connection, the socket of a connection going away, the close handler
  of a connection, a tick of its keep-alive timer. Each handler runs to its end before
  the next event.\<close>

datatype event =
    SubmitAudio submit
  | SubscribeTo conn query
  | SocketGone conn
  | Closed conn
  | Tick conn

fun step :: "env \<Rightarrow> server \<Rightarrow> event \<Rightarrow> server" where
  "step env s (SubmitAudio req) = fst (handleTranslateRequest env req s)"
| "step env s (SubscribeTo res q) = fst (handleSubscribeRequest res q s)"
| "step env s (SocketGone res) = s\<lparr>destroyed := res # destroyed s\<rparr>"
| "step env s (Closed res) = on_close res s"
| "step env s (Tick res) = keepAlive res s"

definition run :: "env \<Rightarrow> server \<Rightarrow> event list \<Rightarrow> server" where
  "run env s evs = foldl (step env) s evs"

section \<open>Notions used in the statements\<close>

text \<open>The room and the passcode a submit request is read as (lines 585-586), and the room
  of a subscribe request (line 529).\<close>

definition submit_room :: "submit \<Rightarrow> string" where
  "submit_room req = or_default (get (url req) ''room'') ''default''"

definition submit_passcode :: "submit \<Rightarrow> string" where
  "submit_passcode req = trim (or_default (get (url req) ''passcode'') [])"

definition subscribe_room :: "query \<Rightarrow> string" where
  "subscribe_room q = or_default (Some (trim (or_default (get q ''room'') []))) ''default''"

text \<open>The passcode a subscribe request is read as (line 530).\<close>

definition subscribe_passcode :: "query \<Rightarrow> string" where
  "subscribe_passcode q = trim (or_default (get q ''passcode'') [])"

text \<open>The labels a submit request asks for: every comma-separated piece of every
  \<open>targetLang\<close> parameter and of the first \<open>targetLangs\<close> parameter, trimmed, the empty
  ones dropped.\<close>

definition requested_labels :: "query \<Rightarrow> string list" where
  "requested_labels q =
     filter (\<lambda>v. v \<noteq> [])
       (map trim (concat (map split_comma (getAll q ''targetLang'')) @
                  split_comma (or_default (get q ''targetLangs'') [])))"

text \<open>The listeners registered on a channel.\<close>

definition listeners :: "server \<Rightarrow> string \<Rightarrow> conn list" where
  "listeners s channel = (case subscribers s channel of None \<Rightarrow> [] | Some st \<Rightarrow> st)"

text \<open>The requests sent between two states of a run.\<close>

definition sent_between :: "server \<Rightarrow> server \<Rightarrow> history" where
  "sent_between s s' = drop (length (requests s)) (requests s')"

text \<open>From \<open>s\<close> to \<open>s'\<close> the two registries, the destroyed connections and the streams
  are the same, and the requests and the deliveries have only been extended.\<close>

definition grows :: "server \<Rightarrow> server \<Rightarrow> bool" where
  "grows s s' \<longleftrightarrow>
     subscribers s' = subscribers s \<and> roomPasscodes s' = roomPasscodes s \<and>
     destroyed s' = destroyed s \<and> streams s' = streams s \<and>
     prefix (requests s) (requests s') \<and> prefix (delivered s) (delivered s')"

text \<open>What the submit handler does once the passcode is bound (lines 601-647).\<close>

definition submit_pipeline :: "env \<Rightarrow> submit \<Rightarrow> server \<Rightarrow> server \<times> response" where
  "submit_pipeline env req s0 =
     (case payload_read req of
        Inl e \<Rightarrow> (s0, caught e)
      | Inr audioBuffer \<Rightarrow>
          if audioBuffer = [] then (s0, Json 400 (ErrorBody ''No audio content received.''))
          else (case transcribeAudio env audioBuffer (or_default (get (url req) ''sourceLang'') [])
                       (normalizeMimeType
                          (if or_default (x_audio_mime_type req) [] \<noteq> [] then x_audio_mime_type req
                           else content_type req)) s0 of
                  (s1, Inl e) \<Rightarrow> (s1, caught e)
                | (s1, Inr transcriptRaw) \<Rightarrow>
              (case refineTranscript env transcriptRaw (or_default (get (url req) ''sourceLang'') []) s1 of
                  (s2, Inl e) \<Rightarrow> (s2, caught e)
                | (s2, Inr transcript) \<Rightarrow>
              (case fanout (translateBranch env (submit_room req) transcript
                              (or_default (get (url req) ''context'') [])
                              (or_default (get (url req) ''outputMode'') ''text'' = ''audio'' \<or>
                               or_default (get (url req) ''outputMode'') ''text'' = ''both''))
                         (parseTargetLanguages (url req)) s2 of
                  (s3, outcomes) \<Rightarrow>
                    (case Promise_all outcomes of
                       Inl e \<Rightarrow> (s3, caught e)
                     | Inr results \<Rightarrow>
                         (s3, Json 200
                                (Success transcript results (sessionUsage s3)
                                   (estimateCost env s3) (OPENAI_TRANSLATE_MODEL env))))))))"

section \<open>A process, services and requests to run the model on\<close>

text \<open>The process as it starts: no subscriber, no passcode, no usage.\<close>

definition started :: server where
  "started =
     \<lparr>subscribers = Map.empty, roomPasscodes = Map.empty,
      sessionUsage = \<lparr>prompt_tokens = 0, completion_tokens = 0, total_tokens = 0\<rparr>,
      requests = [], delivered = [], destroyed = [], streams = []\<rparr>"

text \<open>Services that always answer: the transcript \<open>hello world\<close>, a completion whose
  content is \<open>hola\<close> with a usage of 1000 prompt and 1000 completion tokens, three bytes
  of audio.\<close>

definition answering :: env where
  "answering =
     \<lparr>OPENAI_API_KEY = ''sk-test'',
      OPENAI_TRANSCRIBE_MODEL = ''whisper-1'',
      OPENAI_TRANSLATE_MODEL = ''gpt-4o-mini'',
      OPENAI_TTS_MODEL = ''gpt-4o-mini-tts'',
      OPENAI_TTS_VOICE = ''alloy'',
      transcriptions = (\<lambda>h c. Ok (Some ''hello world'')),
      completions =
        (\<lambda>h c. Ok \<lparr>first_content = Some ''hola'',
                     usage = Some \<lparr>reported_prompt_tokens = Some 1000,
                                   reported_completion_tokens = Some 1000,
                                   reported_total_tokens = Some 2000\<rparr>\<rparr>),
      speech = (\<lambda>h c. Ok [1, 2, 3]),
      base64 = (\<lambda>b. ''AQID'')\<rparr>"

text \<open>The same services, but the completions fail with status 503.\<close>

definition completions_down :: env where
  "completions_down = answering\<lparr>completions := (\<lambda>h c. Status 503 ''unavailable'')\<rparr>"

text \<open>The same services, but speech synthesis answers once only: a request after a
  synthesis that was answered fails with status 500.\<close>

definition is_speech :: "call \<Rightarrow> bool" where
  "is_speech c = (case c of Speech m t v \<Rightarrow> True | _ \<Rightarrow> False)"

definition speech_once :: env where
  "speech_once =
     answering\<lparr>speech := (\<lambda>h c. if list_ex (\<lambda>p. is_speech (fst p) \<and> snd p) h
                                 then Status 500 ''tts failed'' else Ok [1, 2, 3])\<rparr>"

text \<open>Completions whose content is empty on the first request of the history and
  \<open>hola\<close> afterwards, and completions whose content is always empty.\<close>

definition blank_first :: env where
  "blank_first =
     answering\<lparr>completions :=
       (\<lambda>h c. Ok \<lparr>first_content = Some (if h = [] then [] else ''hola''), usage = None\<rparr>)\<rparr>"

definition always_blank :: env where
  "always_blank =
     answering\<lparr>completions := (\<lambda>h c. Ok \<lparr>first_content = Some [], usage = None\<rparr>)\<rparr>"

text \<open>A submit request with the given query and body, and no MIME header.\<close>

definition submit_of :: "query \<Rightarrow> bytes \<Rightarrow> submit" where
  "submit_of q b =
     \<lparr>url = q, x_audio_mime_type = None, content_type = None, payload_read = Inr b\<rparr>"

section \<open>The cost formula of the specification, and further states and requests\<close>



text \<open>A channel with two listeners, the first on a connection whose socket is gone.\<close>

definition two_listeners :: server where
  "two_listeners = started\<lparr>subscribers := [''r1:spanish'' \<mapsto> [1, 2]], destroyed := [1]\<rparr>"

text \<open>The process after a first submit that binds the passcode \<open>abc\<close> to the room
  \<open>r1\<close>, with services that answer.\<close>

definition bound_r1 :: server where
  "bound_r1 =
     fst (handleTranslateRequest answering
            (submit_of [(''room'', ''r1''), (''passcode'', ''abc'')] [1]) started)"

text \<open>The process with connection 7 subscribed to the channel \<open>r1:cantonese\<close>.\<close>

definition cantonese_listener :: server where
  "cantonese_listener =
     fst (handleSubscribeRequest 7 [(''channel'', ''r1:cantonese''), (''room'', ''r1'')] started)"

text \<open>A submit to room \<open>r1\<close> for Cantonese and Spanish, with audio output.\<close>

definition two_languages_audio :: submit where
  "two_languages_audio =
     submit_of [(''room'', ''r1''), (''passcode'', ''abc''),
                (''targetLangs'', ''Cantonese,Spanish''), (''outputMode'', ''audio'')] [1]"

text \<open>A submit that asks for English twice, in two spellings, and one that asks for
  languages through both parameters.\<close>

definition english_twice :: submit where
  "english_twice =
     submit_of [(''room'', ''r1''), (''passcode'', ''abc''), (''targetLangs'', ''English,english'')] [1]"

definition several_languages :: submit where
  "several_languages =
     submit_of [(''targetLang'', ''English''), (''room'', ''r1''), (''passcode'', ''abc''),
                (''targetLang'', ''Spanish, French''), (''targetLangs'', ''Spanish,,German'')] [1]"

text \<open>Events of a busy process: a subscription with the passcode, a submit with a wrong
  passcode, a submit to another room, a tick, and the end of the subscriber's connection.\<close>

definition busy_events :: "event list" where
  "busy_events =
     [SubscribeTo 7 [(''channel'', ''r1:spanish''), (''room'', ''r1''), (''passcode'', ''abc'')],
      SubmitAudio (submit_of [(''room'', ''r1''), (''passcode'', ''nope'')] [1]),
      SubmitAudio (submit_of [(''room'', ''r2''), (''passcode'', ''xyz'')] [1]),
      Tick 7, SocketGone 7, Closed 7]"

text \<open>The process after the first submit to \<open>r1\<close> and these events.\<close>

definition later_r1 :: server where
  "later_r1 = run answering bound_r1 busy_events"

text \<open>A subscribe request without a passcode that cites the room \<open>lobby\<close> and names the
  channel of the room \<open>r1\<close> for Spanish, and a submit to \<open>r1\<close> for Spanish with
  the passcode of \<open>r1\<close>.\<close>

definition eavesdrop :: query where
  "eavesdrop = [(''channel'', ''r1:spanish''), (''room'', ''lobby'')]"

definition spanish_r1 :: submit where
  "spanish_r1 =
     submit_of [(''room'', ''r1''), (''passcode'', ''abc''), (''targetLang'', ''Spanish'')] [1]"

section \<open>Properties\<close>

lemma set_add_set: "set (set_add x acc) = insert x (set acc)"
  by (auto simp: set_add_def)

lemma set_add_distinct: "distinct acc \<Longrightarrow> distinct (set_add x acc)"
  by (simp add: set_add_def)

lemma fold_set_add_set: "set (fold set_add xs acc) = set xs \<union> set acc"
  by (induction xs arbitrary: acc) (auto simp: set_add_set)

lemma fold_set_add_distinct: "distinct acc \<Longrightarrow> distinct (fold set_add xs acc)"
  by (induction xs arbitrary: acc) (auto simp: set_add_distinct)

lemma new_Set_set: "set (new_Set xs) = set xs"
  by (simp add: new_Set_def fold_set_add_set)

lemma new_Set_distinct: "distinct (new_Set xs)"
  by (simp add: new_Set_def fold_set_add_distinct)

lemma new_Set_length: "length (new_Set xs) = card (set xs)"
  using distinct_card [OF new_Set_distinct, of xs] by (simp add: new_Set_set)

lemma grows_refl: "grows s s"
  by (simp add: grows_def)

lemma grows_trans: "grows s s1 \<Longrightarrow> grows s1 s2 \<Longrightarrow> grows s s2"
  by (auto simp: grows_def intro: prefix_order.trans)

lemma fetch_sent:
  "fetch api c s = (s', r) \<Longrightarrow> \<exists>ok. s' = s\<lparr>requests := requests s @ [(c, ok)]\<rparr> \<and> (ok \<longleftrightarrow> isl r = False)"
  by (auto simp: fetch_def split: reply.splits)

lemma fetch_grows: "fetch api c s = (s', r) \<Longrightarrow> grows s s'"
  by (auto simp: grows_def dest!: fetch_sent)

lemma sent_between_fetch:
  "fetch api c s = (s', r) \<Longrightarrow> sent_between s s' = [(c, \<not> isl r)]"
  by (auto simp: sent_between_def dest!: fetch_sent)

lemma res_write_grows: "grows s (res_write res f s)"
  by (simp add: grows_def res_write_def)

lemma fold_res_write_grows: "grows s (fold (\<lambda>res. res_write res f) st s)"
proof (induction st arbitrary: s)
  case Nil
  show ?case by (simp add: grows_refl)
next
  case (Cons r st)
  show ?case using grows_trans [OF res_write_grows Cons.IH] by simp
qed

lemma broadcast_grows: "grows s (broadcast ch pl s)"
  by (simp add: broadcast_def grows_refl fold_res_write_grows split: option.splits)

lemma tryTranslate_grows: "tryTranslate env ms s = (s', r) \<Longrightarrow> grows s s'"
  by (auto simp: tryTranslate_def grows_def split: prod.splits sum.splits dest!: fetch_sent)

lemma translateText_grows: "translateText env t l c s = (s', r) \<Longrightarrow> grows s s'"
  by (auto simp: translateText_def Let_def split: prod.splits sum.splits if_splits
      dest: tryTranslate_grows intro: grows_trans)

lemma synthesizeSpeech_grows: "synthesizeSpeech env t s = (s', r) \<Longrightarrow> grows s s'"
  by (auto simp: synthesizeSpeech_def split: prod.splits sum.splits dest: fetch_grows)

lemma refineTranscript_grows: "refineTranscript env t l s = (s', r) \<Longrightarrow> grows s s'"
  by (auto simp: refineTranscript_def grows_refl split: option.splits prod.splits sum.splits if_splits dest: fetch_grows)

lemma transcribeAudio_grows: "transcribeAudio env b l m s = (s', r) \<Longrightarrow> grows s s'"
  by (auto simp: transcribeAudio_def Let_def dest: fetch_grows)

lemma translateBranch_grows:
  assumes "translateBranch env room t c w l s = (s', r)"
  shows "grows s s'"
proof -
  obtain s1 r1 where tt: "translateText env t (normalizeTargetLanguageLabel l) c s = (s1, r1)"
    by (cases "translateText env t (normalizeTargetLanguageLabel l) c s")
  have g1: "grows s s1" using tt by (rule translateText_grows)
  show ?thesis
  proof (cases r1)
    case (Inl e)
    with assms tt g1 show ?thesis by (simp add: translateBranch_def)
  next
    case (Inr tr)
    show ?thesis
    proof (cases w)
      case False
      with assms tt Inr have "s' = broadcast (channelName room l) (Translation room l t tr None) s1"
        by (auto simp: translateBranch_def)
      with g1 broadcast_grows show ?thesis by (blast intro: grows_trans)
    next
      case True
      obtain s2 r2 where sy: "synthesizeSpeech env tr s1 = (s2, r2)"
        by (cases "synthesizeSpeech env tr s1")
      have g2: "grows s s2" using g1 synthesizeSpeech_grows [OF sy] by (rule grows_trans)
      show ?thesis
      proof (cases r2)
        case (Inl e)
        with assms tt \<open>r1 = Inr tr\<close> True sy g2 show ?thesis by (simp add: translateBranch_def)
      next
        case (Inr b)
        with assms tt \<open>r1 = Inr tr\<close> True sy
        have "s' = broadcast (channelName room l) (Translation room l t tr (Some b)) s2"
          by (auto simp: translateBranch_def)
        with g2 broadcast_grows show ?thesis by (blast intro: grows_trans)
      qed
    qed
  qed
qed

lemma fanout_grows:
  assumes br: "\<And>l s s' r. branch l s = (s', r) \<Longrightarrow> grows s s'"
  shows "fanout branch ls s = (s', rs) \<Longrightarrow> grows s s'"
proof (induction ls arbitrary: s s' rs)
  case Nil
  then show ?case by (simp add: grows_refl)
next
  case (Cons l ls)
  obtain s1 r where b: "branch l s = (s1, r)" by (cases "branch l s")
  obtain s2 rs' where f: "fanout branch ls s1 = (s2, rs')" by (cases "fanout branch ls s1")
  from Cons.prems b f have "s' = s2" by simp
  with br [OF b] Cons.IH [OF f] show ?case by (blast intro: grows_trans)
qed

lemma submit_pipeline_grows:
  assumes "submit_pipeline env req s = (s', r)"
  shows "grows s s'"
proof (cases "payload_read req")
  case (Inl e)
  with assms show ?thesis by (simp add: submit_pipeline_def grows_refl)
next
  case (Inr audio)
  show ?thesis
  proof (cases "audio = []")
    case True
    with assms Inr show ?thesis by (simp add: submit_pipeline_def grows_refl)
  next
    case False
    let ?src = "or_default (get (url req) ''sourceLang'') []"
    let ?mime = "normalizeMimeType
                          (if or_default (x_audio_mime_type req) [] \<noteq> [] then x_audio_mime_type req
                           else content_type req)"
    obtain s1 r1 where t: "transcribeAudio env audio ?src ?mime s = (s1, r1)"
      by (cases "transcribeAudio env audio ?src ?mime s")
    have g1: "grows s s1" using t by (rule transcribeAudio_grows)
    show ?thesis
    proof (cases r1)
      case (Inl e)
      with assms \<open>payload_read req = Inr audio\<close> False t g1 show ?thesis
        by (simp add: submit_pipeline_def)
    next
      case (Inr raw)
      obtain s2 r2 where rf: "refineTranscript env raw ?src s1 = (s2, r2)"
        by (cases "refineTranscript env raw ?src s1")
      have g2: "grows s s2" using g1 refineTranscript_grows [OF rf] by (rule grows_trans)
      show ?thesis
      proof (cases r2)
        case (Inl e)
        with assms \<open>payload_read req = Inr audio\<close> False t \<open>r1 = Inr raw\<close> rf g2 show ?thesis
          by (simp add: submit_pipeline_def)
      next
        case (Inr transcript)
        let ?branch = "translateBranch env (submit_room req) transcript
                              (or_default (get (url req) ''context'') [])
                              (or_default (get (url req) ''outputMode'') ''text'' = ''audio'' \<or>
                               or_default (get (url req) ''outputMode'') ''text'' = ''both'')"
        obtain s3 outs where f: "fanout ?branch (parseTargetLanguages (url req)) s2 = (s3, outs)"
          by (cases "fanout ?branch (parseTargetLanguages (url req)) s2")
        have g3: "grows s s3"
          using g2 fanout_grows [OF translateBranch_grows f] by (rule grows_trans)
        from assms \<open>payload_read req = Inr audio\<close> False t \<open>r1 = Inr raw\<close> rf Inr f
        have "s' = s3" by (simp add: submit_pipeline_def split: sum.splits)
        with g3 show ?thesis by simp
      qed
    qed
  qed
qed

lemma handleTranslateRequest_unfold:
  "handleTranslateRequest env req s =
     (if OPENAI_API_KEY env = [] then (s, Json 500 (ErrorBody ''Missing OPENAI_API_KEY''))
      else if submit_passcode req = [] then (s, Json 400 (ErrorBody ''Missing passcode''))
      else if (case roomPasscodes s (submit_room req) of None \<Rightarrow> False
               | Some existing \<Rightarrow> existing \<noteq> [] \<and> existing \<noteq> submit_passcode req)
      then (s, Json 403 (ErrorBody ''Room passcode mismatch''))
      else submit_pipeline env req
             (s\<lparr>roomPasscodes := (roomPasscodes s)(submit_room req \<mapsto> submit_passcode req)\<rparr>))"
  unfolding handleTranslateRequest_def submit_pipeline_def submit_room_def submit_passcode_def Let_def
  by (rule refl)

subsection \<open>The cost estimate\<close>





subsection \<open>Publishing on a channel\<close>

lemma fold_res_write_delivered:
  "delivered (fold (\<lambda>res. res_write res f) st s) =
     delivered s @ map (\<lambda>res. (res, f)) (filter (\<lambda>res. res \<notin> set (destroyed s)) st)"
proof (induction st arbitrary: s)
  case Nil
  show ?case by simp
next
  case (Cons r st)
  show ?case by (simp add: Cons.IH) (simp add: res_write_def)
qed

lemma broadcast_delivered:
  "delivered (broadcast ch pl s) =
     delivered s @ map (\<lambda>res. (res, Data pl))
                      (filter (\<lambda>res. res \<notin> set (destroyed s)) (listeners s ch))"
  by (simp add: broadcast_def listeners_def fold_res_write_delivered split: option.splits)

lemma broadcast_no_listeners: "listeners s ch = [] \<Longrightarrow> broadcast ch pl s = s"
  by (simp add: broadcast_def listeners_def split: option.splits)

text \<open>
  Claim C8, as amended. \<open>broadcast\<close> changes nothing when the channel has no listener.
  Otherwise it writes the event once to every registered listener, in the order of
  registration; a write that is lost (the socket is gone) does not stop the writes to the
  listeners after it. \<open>broadcast\<close> never changes the registry of subscribers: the listener
  whose write was lost stays registered.
\<close>

theorem broadcast_delivers_and_keeps_listeners:
  "(listeners s ch = [] \<longrightarrow> broadcast ch pl s = s) \<and>
   delivered (broadcast ch pl s) =
     delivered s @ map (\<lambda>res. (res, Data pl))
                      (filter (\<lambda>res. res \<notin> set (destroyed s)) (listeners s ch)) \<and>
   subscribers (broadcast ch pl s) = subscribers s"
  using broadcast_grows [of s ch pl]
  by (simp add: broadcast_delivered grows_def broadcast_no_listeners)

text \<open>The theorem on a channel with listeners 1 and 2, where the socket of 1 is gone, and
  on a channel without listeners.\<close>

theorem broadcast_delivers_and_keeps_listeners_witness:
  "delivered (broadcast ''r1:spanish'' (Translation ''r1'' ''Spanish'' ''hello'' ''hola'' None)
     two_listeners) = [(2, Data (Translation ''r1'' ''Spanish'' ''hello'' ''hola'' None))] \<and>
   broadcast ''r1:english'' (Translation ''r1'' ''English'' ''hello'' ''hello'' None) two_listeners =
     two_listeners"
proof -
  have "listeners two_listeners ''r1:english'' = []"
    by (simp add: two_listeners_def started_def listeners_def)
  moreover have "listeners two_listeners ''r1:spanish'' = [1, 2]"
    "destroyed two_listeners = [1]" "delivered two_listeners = []"
    by (simp_all add: two_listeners_def started_def listeners_def)
  ultimately show ?thesis
    using broadcast_delivers_and_keeps_listeners
        [of two_listeners "''r1:spanish''" "Translation ''r1'' ''Spanish'' ''hello'' ''hola'' None"]
      broadcast_delivers_and_keeps_listeners
        [of two_listeners "''r1:english''" "Translation ''r1'' ''English'' ''hello'' ''hello'' None"]
    by simp
qed

text \<open>Claim C8 as stated fails: the write to listener 1 is lost, and after the
  \<open>broadcast\<close> listener 1 is still registered on the channel.\<close>

theorem broadcast_removal_counterexample:
  "1 \<in> set (destroyed two_listeners) \<and>
   listeners (broadcast ''r1:spanish'' (Translation ''r1'' ''Spanish'' ''hello'' ''hola'' None)
     two_listeners) ''r1:spanish'' = [1, 2]"
  by (simp add: two_listeners_def started_def listeners_def broadcast_def res_write_def)

subsection \<open>Requests read and answered at once\<close>

lemma submit_pipeline_no_audio:
  "payload_read req = Inr [] \<Longrightarrow>
   submit_pipeline env req s = (s, Json 400 (ErrorBody ''No audio content received.''))"
  by (simp add: submit_pipeline_def)

lemma bound_r1_passcode: "roomPasscodes bound_r1 ''r1'' = Some ''abc''"
  unfolding bound_r1_def by code_simp

lemma submit_of_reads:
  "submit_passcode (submit_of [(''room'', r), (''passcode'', p)] b) = trim p"
  "submit_room (submit_of [(''room'', r), (''passcode'', p)] b) = (if r = [] then ''default'' else r)"
  "payload_read (submit_of q b) = Inr b"
  by (simp_all add: submit_passcode_def submit_room_def submit_of_def get_def or_default_def)

lemma trim_examples: "trim ''  '' = []" "trim ''abc'' = ''abc''" "trim ''xyz'' = ''xyz''" "trim [] = []"
  by (simp_all add: trim_def isWhiteSpace_def)

subsection \<open>The retry of an empty translation\<close>

lemma sent_between_trans:
  assumes "grows s s1" "grows s1 s2"
  shows "sent_between s s2 = sent_between s s1 @ sent_between s1 s2"
proof -
  from assms obtain a b where "requests s1 = requests s @ a" "requests s2 = requests s1 @ b"
    by (auto simp: grows_def prefix_def)
  then show ?thesis by (simp add: sent_between_def)
qed

lemma sent_between_same: "requests s' = requests s \<Longrightarrow> sent_between s s' = []"
  by (simp add: sent_between_def)

lemma tryTranslate_sent:
  "tryTranslate env ms s = (s', r) \<Longrightarrow>
   sent_between s s' = [(ChatCompletion (OPENAI_TRANSLATE_MODEL env) ms, \<not> isl r)]"
  by (auto simp: tryTranslate_def sent_between_def split: prod.splits sum.splits dest!: fetch_sent)

lemma strengthened_translate_messages:
  "strengthened (translate_messages txt lang ctx) =
     Message ''system''
       (join_space (sysParts lang) @ '' Output must not be empty. Provide best-effort translation.'')
     # tl (translate_messages txt lang ctx)"
  by (simp add: strengthened_def translate_messages_def)

text \<open>
  Claim C6. \<open>translateText\<close> sends one completion request; when the first attempt
  returns the empty string it sends exactly one more, whose system message is the first
  one with the instruction \<open>Output must not be empty. Provide best-effort translation.\<close>
  appended, and returns what the second attempt returns: the empty string if that is empty
  again. When the first attempt is not the empty string (a translation, or a failure) it
  is the outcome and nothing more is sent. At most two requests are sent.
\<close>

theorem translateText_retries_once:
  "(let msgs = translate_messages txt lang ctx;
        model = OPENAI_TRANSLATE_MODEL env;
        first = tryTranslate env msgs s;
        second = tryTranslate env (strengthened msgs) (fst first);
        final = translateText env txt lang ctx s
    in (snd first = Inr [] \<longrightarrow>
          final = second \<and>
          sent_between s (fst final) =
            [(ChatCompletion model msgs, True),
             (ChatCompletion model (strengthened msgs), \<not> isl (snd second))]) \<and>
       (snd first = Inr [] \<and> snd second = Inr [] \<longrightarrow> snd final = Inr []) \<and>
       (snd first \<noteq> Inr [] \<longrightarrow>
          final = first \<and>
          sent_between s (fst final) = [(ChatCompletion model msgs, \<not> isl (snd first))]) \<and>
       strengthened msgs =
         Message ''system''
           (join_space (sysParts lang) @
            '' Output must not be empty. Provide best-effort translation.'') # tl msgs \<and>
       length (sent_between s (fst final)) \<le> 2)"
proof -
  define msgs where "msgs = translate_messages txt lang ctx"
  obtain s1 r1 where first: "tryTranslate env msgs s = (s1, r1)"
    by (cases "tryTranslate env msgs s")
  obtain s2 r2 where second: "tryTranslate env (strengthened msgs) s1 = (s2, r2)"
    by (cases "tryTranslate env (strengthened msgs) s1")
  have g1: "grows s s1" using first by (rule tryTranslate_grows)
  have g2: "grows s1 s2" using second by (rule tryTranslate_grows)
  have sent1: "sent_between s s1 = [(ChatCompletion (OPENAI_TRANSLATE_MODEL env) msgs, \<not> isl r1)]"
    using first by (rule tryTranslate_sent)
  have sent2: "sent_between s1 s2 =
      [(ChatCompletion (OPENAI_TRANSLATE_MODEL env) (strengthened msgs), \<not> isl r2)]"
    using second by (rule tryTranslate_sent)
  have sent12: "sent_between s s2 = sent_between s s1 @ sent_between s1 s2"
    using g1 g2 by (rule sent_between_trans)
  have retry: "translateText env txt lang ctx s = (s2, r2)" if "r1 = Inr []"
    using that first second by (simp add: translateText_def msgs_def)
  have once: "translateText env txt lang ctx s = (s1, r1)" if "r1 \<noteq> Inr []"
    using that first by (cases r1) (auto simp: translateText_def msgs_def)
  have len: "length (sent_between s (fst (translateText env txt lang ctx s))) \<le> 2"
  proof (cases "r1 = Inr []")
    case True
    then show ?thesis using retry sent12 sent1 sent2 by simp
  next
    case False
    then show ?thesis using once sent1 by simp
  qed
  show ?thesis
    unfolding Let_def msgs_def [symmetric]
    using retry once sent12 sent1 sent2 len first second
    by (auto simp: msgs_def strengthened_translate_messages)
qed


text \<open>The theorem with completions that are empty once and then \<open>hola\<close>, with
  completions that are always empty, and with completions that answer at once.\<close>

theorem translateText_retries_once_witness:
  "snd (translateText blank_first ''hello'' ''Spanish'' [] started) = Inr ''hola'' \<and>
   sent_between started (fst (translateText blank_first ''hello'' ''Spanish'' [] started)) =
     [(ChatCompletion ''gpt-4o-mini'' (translate_messages ''hello'' ''Spanish'' []), True),
      (ChatCompletion ''gpt-4o-mini'' (strengthened (translate_messages ''hello'' ''Spanish'' [])), True)] \<and>
   snd (translateText always_blank ''hello'' ''Spanish'' [] started) = Inr [] \<and>
   sent_between started (fst (translateText answering ''hello'' ''Spanish'' [] started)) =
     [(ChatCompletion ''gpt-4o-mini'' (translate_messages ''hello'' ''Spanish'' []), True)]"
proof -
  let ?msgs = "translate_messages ''hello'' ''Spanish'' []"
  have b1: "snd (tryTranslate blank_first ?msgs started) = Inr []"
    by code_simp
  have b2: "snd (tryTranslate blank_first (strengthened ?msgs)
                   (fst (tryTranslate blank_first ?msgs started))) = Inr ''hola''"
    by code_simp
  have a1: "snd (tryTranslate always_blank ?msgs started) = Inr []"
    by code_simp
  have a2: "snd (tryTranslate always_blank (strengthened ?msgs)
                   (fst (tryTranslate always_blank ?msgs started))) = Inr []"
    by code_simp
  have c1: "snd (tryTranslate answering ?msgs started) = Inr ''hola''"
    by code_simp
  have m: "OPENAI_TRANSLATE_MODEL blank_first = ''gpt-4o-mini''"
    "OPENAI_TRANSLATE_MODEL answering = ''gpt-4o-mini''"
    by (simp_all add: blank_first_def answering_def)
  note T1 = translateText_retries_once [of "''hello''" "''Spanish''" "[]" blank_first started,
      unfolded Let_def]
  from T1 b1 have e1: "translateText blank_first ''hello'' ''Spanish'' [] started =
      tryTranslate blank_first (strengthened ?msgs) (fst (tryTranslate blank_first ?msgs started))"
    by blast
  from T1 b1 have sb1: "sent_between started (fst (translateText blank_first ''hello'' ''Spanish'' [] started)) =
            [(ChatCompletion (OPENAI_TRANSLATE_MODEL blank_first) ?msgs, True),
             (ChatCompletion (OPENAI_TRANSLATE_MODEL blank_first) (strengthened ?msgs),
              \<not> isl (snd (tryTranslate blank_first (strengthened ?msgs)
                             (fst (tryTranslate blank_first ?msgs started)))))]"
    by blast
  have A1: "snd (translateText blank_first ''hello'' ''Spanish'' [] started) = Inr ''hola''"
    by (simp only: e1 b2)
  have A2: "sent_between started (fst (translateText blank_first ''hello'' ''Spanish'' [] started)) =
     [(ChatCompletion ''gpt-4o-mini'' ?msgs, True),
      (ChatCompletion ''gpt-4o-mini'' (strengthened ?msgs), True)]"
    by (simp only: sb1 b2 m sum.disc not_False_eq_True)
  note T2 = translateText_retries_once [of "''hello''" "''Spanish''" "[]" always_blank started,
      unfolded Let_def]
  from T2 a1 a2 have B: "snd (translateText always_blank ''hello'' ''Spanish'' [] started) = Inr []"
    by blast
  note T3 = translateText_retries_once [of "''hello''" "''Spanish''" "[]" answering started,
      unfolded Let_def]
  have c1': "snd (tryTranslate answering ?msgs started) \<noteq> Inr []"
    by (simp only: c1) simp
  from T3 c1' have sb3: "sent_between started (fst (translateText answering ''hello'' ''Spanish'' [] started)) =
      [(ChatCompletion (OPENAI_TRANSLATE_MODEL answering) ?msgs,
        \<not> isl (snd (tryTranslate answering ?msgs started)))]"
    by blast
  have C: "sent_between started (fst (translateText answering ''hello'' ''Spanish'' [] started)) =
     [(ChatCompletion ''gpt-4o-mini'' ?msgs, True)]"
    by (simp only: sb3 c1 m sum.disc not_False_eq_True)
  from A1 A2 B C show ?thesis by blast

qed

subsection \<open>Refining the transcript\<close>

lemma trim_nonempty: "trim t \<noteq> [] \<Longrightarrow> t \<noteq> []"
  by (auto simp: trim_def)

lemma or_default_nonempty: "d \<noteq> [] \<Longrightarrow> or_default x d \<noteq> []"
  by (simp add: or_default_def split: option.splits)

text \<open>
  Claim C7, as amended. \<open>refineTranscript\<close> sends no request and returns the raw
  transcript when it has fewer than 2 characters after trimming (the empty string when the
  transcript is missing). Otherwise it sends one completion request: when the request is
  answered and the content is missing or empty after trimming, the result is the raw
  transcript; when the request fails, \<open>refineTranscript\<close> fails with the error of the
  request and nothing falls back. A transcript that \<open>refineTranscript\<close> returns is never
  empty when the raw transcript is not.
\<close>

theorem refineTranscript_skips_and_falls_back:
  "(let c = ChatCompletion (OPENAI_TRANSLATE_MODEL env) (refine_messages raw src);
        sent = (\<lambda>ok. s\<lparr>requests := requests s @ [(c, ok)]\<rparr>)
    in refineTranscript env None src s = (s, Inr []) \<and>
       (length (trim raw) < 2 \<longrightarrow> refineTranscript env (Some raw) src s = (s, Inr raw)) \<and>
       (2 \<le> length (trim raw) \<longrightarrow>
          (case completions env (requests s) c of
             Ok completion \<Rightarrow>
               refineTranscript env (Some raw) src s =
                 (sent True,
                  Inr (case first_content completion of
                         None \<Rightarrow> raw
                       | Some refined \<Rightarrow> if trim refined = [] then raw else trim refined))
           | Status st msg \<Rightarrow>
               refineTranscript env (Some raw) src s =
                 (sent False, Inl (Error (''OpenAI request failed ('' @ decimal st @ ''): '' @ msg)))
           | Rejected msg \<Rightarrow>
               refineTranscript env (Some raw) src s = (sent False, Inl (Error msg)))) \<and>
       (\<forall>s' t. refineTranscript env (Some raw) src s = (s', Inr t) \<longrightarrow> raw \<noteq> [] \<longrightarrow> t \<noteq> []))"
proof -
  have short: "refineTranscript env (Some raw) src s = (s, Inr raw)" if "length (trim raw) < 2"
    using that by (simp add: refineTranscript_def)
  have rawne: "raw \<noteq> []" if "2 \<le> length (trim raw)"
    using that by (auto simp: trim_def)
  have nonempty: "t \<noteq> []" if "refineTranscript env (Some raw) src s = (s', Inr t)" "raw \<noteq> []" for s' t
  proof (cases "length (trim raw) < 2")
    case True
    with that short show ?thesis by simp
  next
    case False
    with that show ?thesis
      by (auto simp: refineTranscript_def or_default_def
          split: prod.splits sum.splits option.splits if_splits)
  qed
  have none: "refineTranscript env None src s = (s, Inr [])"
    by (simp add: refineTranscript_def)
  let ?c = "ChatCompletion (OPENAI_TRANSLATE_MODEL env) (refine_messages raw src)"
  have long: "(case completions env (requests s) ?c of
             Ok completion \<Rightarrow>
               refineTranscript env (Some raw) src s =
                 (s\<lparr>requests := requests s @ [(?c, True)]\<rparr>,
                  Inr (case first_content completion of
                         None \<Rightarrow> raw
                       | Some refined \<Rightarrow> if trim refined = [] then raw else trim refined))
           | Status st msg \<Rightarrow>
               refineTranscript env (Some raw) src s =
                 (s\<lparr>requests := requests s @ [(?c, False)]\<rparr>,
                  Inl (Error (''OpenAI request failed ('' @ decimal st @ ''): '' @ msg)))
           | Rejected msg \<Rightarrow>
               refineTranscript env (Some raw) src s =
                 (s\<lparr>requests := requests s @ [(?c, False)]\<rparr>, Inl (Error msg)))"
    if "2 \<le> length (trim raw)"
  proof (cases "completions env (requests s) ?c")
    case (Rejected msg)
    with that rawne [OF that] show ?thesis
      by (simp add: refineTranscript_def fetch_def)
  next
    case (Status st msg)
    with that rawne [OF that] show ?thesis
      by (simp add: refineTranscript_def fetch_def)
  next
    case (Ok completion)
    with that rawne [OF that] show ?thesis
      by (simp add: refineTranscript_def fetch_def or_default_def split: option.splits)
  qed
  from none short long nonempty show ?thesis
    unfolding Let_def by blast
qed

text \<open>The theorem at a one-character transcript, at a refinement that comes back empty,
  and at a refinement that comes back as \<open>hola\<close>.\<close>

theorem refineTranscript_skips_and_falls_back_witness:
  "refineTranscript answering (Some ''a'') [] started = (started, Inr ''a'') \<and>
   snd (refineTranscript always_blank (Some ''hello world'') [] started) = Inr ''hello world'' \<and>
   snd (refineTranscript answering (Some ''hello world'') [] started) = Inr ''hola''"
proof -
  have short: "length (trim ''a'') < 2"
    by (simp add: trim_def isWhiteSpace_def)
  have long: "2 \<le> length (trim ''hello world'')"
    by (simp add: trim_def isWhiteSpace_def)
  have blank: "completions always_blank h c = Ok \<lparr>first_content = Some [], usage = None\<rparr>" for h c
    by (simp add: always_blank_def answering_def)
  have hola: "\<exists>u. completions answering h c = Ok \<lparr>first_content = Some ''hola'', usage = u\<rparr>" for h c
    by (simp add: answering_def)
  have t: "trim [] = []" "trim ''hola'' = ''hola''"
    by (simp_all add: trim_def isWhiteSpace_def)
  note T1 = refineTranscript_skips_and_falls_back [of answering "''a''" "[]" started, unfolded Let_def]
  from T1 short have W1: "refineTranscript answering (Some ''a'') [] started = (started, Inr ''a'')"
    by blast
  note T2 = refineTranscript_skips_and_falls_back [of always_blank "''hello world''" "[]" started,
      unfolded Let_def]
  from T2 long have W2: "snd (refineTranscript always_blank (Some ''hello world'') [] started) = Inr ''hello world''"
    by (simp add: blank t)
  note T3 = refineTranscript_skips_and_falls_back [of answering "''hello world''" "[]" started,
      unfolded Let_def]
  from hola obtain u where
    "completions answering (requests started)
       (ChatCompletion (OPENAI_TRANSLATE_MODEL answering) (refine_messages ''hello world'' [])) =
     Ok \<lparr>first_content = Some ''hola'', usage = u\<rparr>"
    by blast
  with T3 long have W3: "snd (refineTranscript answering (Some ''hello world'') [] started) = Inr ''hola''"
    by (simp add: t)
  from W1 W2 W3 show ?thesis by blast
qed

text \<open>Claim C7 as stated fails: when the completions service answers 503, the refinement
  of \<open>hello world\<close> is the error and not the raw transcript, and the submit request is
  answered with status 500.\<close>

theorem refineTranscript_failure_counterexample:
  "snd (refineTranscript completions_down (Some ''hello world'') [] started) =
     Inl (Error ''OpenAI request failed (503): unavailable'') \<and>
   snd (handleTranslateRequest completions_down
          (submit_of [(''room'', ''r1''), (''passcode'', ''abc'')] [1]) started) =
     Json 500 (ErrorBody ''OpenAI request failed (503): unavailable'')"
  by code_simp

subsection \<open>The outcomes of the submit pipeline and of the fan-out\<close>

lemma submit_pipeline_200:
  assumes "submit_pipeline env req s0 = (s', Json 200 b)"
  obtains audio s1 raw s2 transcript outs results where
    "payload_read req = Inr audio" "audio \<noteq> []"
    "transcribeAudio env audio (or_default (get (url req) ''sourceLang'') [])
       (normalizeMimeType
          (if or_default (x_audio_mime_type req) [] \<noteq> [] then x_audio_mime_type req
           else content_type req)) s0 = (s1, Inr raw)"
    "refineTranscript env raw (or_default (get (url req) ''sourceLang'') []) s1 = (s2, Inr transcript)"
    "fanout (translateBranch env (submit_room req) transcript
               (or_default (get (url req) ''context'') [])
               (or_default (get (url req) ''outputMode'') ''text'' = ''audio'' \<or>
                or_default (get (url req) ''outputMode'') ''text'' = ''both''))
       (parseTargetLanguages (url req)) s2 = (s', outs)"
    "Promise_all outs = Inr results"
    "b = Success transcript results (sessionUsage s') (estimateCost env s') (OPENAI_TRANSLATE_MODEL env)"
  using assms
  by (auto simp: submit_pipeline_def caught_def
      split: sum.splits prod.splits if_splits jserror.splits)

lemma submit_pipeline_status:
  assumes "submit_pipeline env req s0 = (s', r)"
  shows "(\<exists>m. r = Json 500 (ErrorBody m)) \<or>
         (r = Json 400 (ErrorBody ''No audio content received.'') \<and> s' = s0) \<or>
         (\<exists>b. r = Json 200 b)"
  using assms
  by (auto simp: submit_pipeline_def caught_def
      split: sum.splits prod.splits if_splits jserror.splits)

lemma fetch_ok_sent: "fetch api c s = (s', Inr v) \<Longrightarrow> sent_between s s' = [(c, True)]"
  by (drule sent_between_fetch) simp

lemma translateText_ok_sent:
  assumes "translateText env t l c s = (s', Inr v)"
  shows "\<forall>p \<in> set (sent_between s s'). snd p"
proof -
  let ?msgs = "translate_messages t l c"
  obtain s1 r1 where first: "tryTranslate env ?msgs s = (s1, r1)"
    by (cases "tryTranslate env ?msgs s")
  show ?thesis
  proof (cases "r1 = Inr []")
    case True
    with assms first have second: "tryTranslate env (strengthened ?msgs) s1 = (s', Inr v)"
      by (simp add: translateText_def)
    have "sent_between s s' = sent_between s s1 @ sent_between s1 s'"
      using tryTranslate_grows [OF first] tryTranslate_grows [OF second]
      by (rule sent_between_trans)
    with tryTranslate_sent [OF first] tryTranslate_sent [OF second] True show ?thesis by simp
  next
    case False
    with assms first have "s' = s1 \<and> r1 = Inr v"
      by (cases r1) (auto simp: translateText_def)
    with tryTranslate_sent [OF first] show ?thesis by simp
  qed
qed

lemma synthesizeSpeech_ok_sent:
  "synthesizeSpeech env t s = (s', Inr v) \<Longrightarrow> \<forall>p \<in> set (sent_between s s'). snd p"
  by (auto simp: synthesizeSpeech_def split: prod.splits sum.splits dest!: fetch_ok_sent)

lemma translateBranch_Inr:
  assumes "translateBranch env room transcript c w l s = (s', Inr res)"
  obtains s2 tr audio where
    "res = Result l tr audio" "grows s s2" "\<forall>p \<in> set (sent_between s s2). snd p"
    "s' = broadcast (channelName room l) (Translation room l transcript tr audio) s2"
proof -
  obtain s1 r1 where tt: "translateText env transcript (normalizeTargetLanguageLabel l) c s = (s1, r1)"
    by (cases "translateText env transcript (normalizeTargetLanguageLabel l) c s")
  from assms tt obtain tr where r1: "r1 = Inr tr"
    by (cases r1) (auto simp: translateBranch_def)
  have g1: "grows s s1" using tt by (rule translateText_grows)
  have ok1: "\<forall>p \<in> set (sent_between s s1). snd p"
    using tt unfolding r1 by (rule translateText_ok_sent)
  show ?thesis
  proof (cases w)
    case False
    with assms tt r1 have "res = Result l tr None"
      "s' = broadcast (channelName room l) (Translation room l transcript tr None) s1"
      by (auto simp: translateBranch_def)
    with g1 ok1 that show ?thesis by blast
  next
    case True
    obtain s2 r2 where sy: "synthesizeSpeech env tr s1 = (s2, r2)"
      by (cases "synthesizeSpeech env tr s1")
    from assms tt r1 True sy obtain b where r2: "r2 = Inr b"
      by (cases r2) (auto simp: translateBranch_def)
    have g2: "grows s1 s2" using sy by (rule synthesizeSpeech_grows)
    have ok2: "\<forall>p \<in> set (sent_between s1 s2). snd p"
      using sy unfolding r2 by (rule synthesizeSpeech_ok_sent)
    have ok: "\<forall>p \<in> set (sent_between s s2). snd p"
      using ok1 ok2 sent_between_trans [OF g1 g2] by auto
    from assms tt r1 True sy r2 have "res = Result l tr (Some b)"
      "s' = broadcast (channelName room l) (Translation room l transcript tr (Some b)) s2"
      by (auto simp: translateBranch_def)
    with grows_trans [OF g1 g2] ok that show ?thesis by blast
  qed
qed

lemma fold_res_write_requests: "requests (fold (\<lambda>res. res_write res f) st s) = requests s"
  by (induction st arbitrary: s) (simp_all add: res_write_def)

lemma broadcast_requests: "requests (broadcast ch pl s) = requests s"
  by (simp add: broadcast_def fold_res_write_requests split: option.splits)

lemma sent_between_broadcast: "sent_between s (broadcast ch pl s2) = sent_between s s2"
  by (simp add: sent_between_def broadcast_requests)

lemma Promise_all_Cons:
  "Promise_all (r # rs) = Inr vs \<Longrightarrow> \<exists>v vs'. r = Inr v \<and> Promise_all rs = Inr vs' \<and> vs = v # vs'"
  by (cases r) (auto split: sum.splits)

lemma fanout_Cons:
  assumes "fanout branch (l # ls) s = (s', outs)"
  obtains s1 r rs where "branch l s = (s1, r)" "fanout branch ls s1 = (s', rs)" "outs = r # rs"
  using assms by (auto split: prod.splits)

lemma fanout_languages:
  "fanout (translateBranch env room transcript c w) ls s = (s', outs) \<Longrightarrow>
   Promise_all outs = Inr results \<Longrightarrow> map language results = ls"
proof (induction ls arbitrary: s outs results)
  case Nil
  then show ?case by auto
next
  case (Cons l ls)
  from Cons.prems(1) obtain s1 r rs where
    b: "translateBranch env room transcript c w l s = (s1, r)" and
    f: "fanout (translateBranch env room transcript c w) ls s1 = (s', rs)" and o: "outs = r # rs"
    by (rule fanout_Cons)
  from Cons.prems(2) o obtain v vs where r: "r = Inr v" and p: "Promise_all rs = Inr vs"
    and res: "results = v # vs"
    by (auto dest: Promise_all_Cons)
  from b r have "language v = l" by (auto elim: translateBranch_Inr)
  with Cons.IH [OF f p] res show ?case by simp
qed

lemma fanout_ok_sent:
  "fanout (translateBranch env room transcript c w) ls s = (s', outs) \<Longrightarrow>
   Promise_all outs = Inr results \<Longrightarrow> \<forall>p \<in> set (sent_between s s'). snd p"
proof (induction ls arbitrary: s outs results)
  case Nil
  then show ?case by (auto simp: sent_between_def)
next
  case (Cons l ls)
  from Cons.prems(1) obtain s1 r rs where
    b: "translateBranch env room transcript c w l s = (s1, r)" and
    f: "fanout (translateBranch env room transcript c w) ls s1 = (s', rs)" and o: "outs = r # rs"
    by (rule fanout_Cons)
  from Cons.prems(2) o obtain v vs where r: "r = Inr v" and p: "Promise_all rs = Inr vs"
    by (auto dest: Promise_all_Cons)
  have ok1: "\<forall>p \<in> set (sent_between s s1). snd p"
    using b unfolding r by (rule translateBranch_Inr) (simp add: sent_between_broadcast)
  have "sent_between s s' = sent_between s s1 @ sent_between s1 s'"
    using translateBranch_grows [OF b] fanout_grows [OF translateBranch_grows f]
    by (rule sent_between_trans)
  with ok1 Cons.IH [OF f p] show ?case by auto
qed

subsection \<open>One result for each requested language\<close>

lemma parseTargetLanguages_labels:
  "parseTargetLanguages q =
     (if requested_labels q \<noteq> [] then new_Set (requested_labels q) else [''English''])"
  unfolding parseTargetLanguages_def requested_labels_def Let_def by (rule refl)

lemma handleTranslateRequest_200:
  assumes "handleTranslateRequest env req s = (s', Json 200 b)"
  shows "submit_pipeline env req
           (s\<lparr>roomPasscodes := (roomPasscodes s)(submit_room req \<mapsto> submit_passcode req)\<rparr>) =
         (s', Json 200 b)"
  using assms by (auto simp: handleTranslateRequest_unfold split: if_splits)

text \<open>
  Claim C4, as amended. A successful submit returns one result for each requested
  language, in the order of first request: the requested labels are the comma-separated
  pieces of every \<open>targetLang\<close> parameter and of the first \<open>targetLangs\<close> parameter,
  trimmed, the empty ones dropped, and two labels are the same language only when they are
  the same string (the comparison is case-sensitive). The number of results is the number
  of distinct labels, and without any label the one language is English.
\<close>

theorem one_result_per_exact_label:
  assumes "handleTranslateRequest env req s = (s', Json 200 (Success transcript results u cost model))"
  shows "map language results = parseTargetLanguages (url req) \<and>
         distinct (map language results) \<and>
         (requested_labels (url req) \<noteq> [] \<longrightarrow>
            set (map language results) = set (requested_labels (url req)) \<and>
            length results = card (set (requested_labels (url req)))) \<and>
         (requested_labels (url req) = [] \<longrightarrow> map language results = [''English''])"
proof -
  have langs: "map language results = parseTargetLanguages (url req)"
    using handleTranslateRequest_200 [OF assms]
    by (rule submit_pipeline_200) (auto dest: fanout_languages)
  have len: "length results = length (parseTargetLanguages (url req))"
    using arg_cong [OF langs, of length] by simp
  show ?thesis
    unfolding langs using len
    by (simp add: parseTargetLanguages_labels new_Set_distinct new_Set_set new_Set_length)
qed

text \<open>The theorem at a submit that names five labels, four of them distinct, through
  both parameters.\<close>

theorem one_result_per_exact_label_witness:
  "snd (handleTranslateRequest answering several_languages started) =
     Json 200 (Success ''hola''
                 [Result ''English'' ''hola'' None, Result ''Spanish'' ''hola'' None,
                  Result ''French'' ''hola'' None, Result ''German'' ''hola'' None]
                 \<lparr>prompt_tokens = 4000, completion_tokens = 4000, total_tokens = 8000\<rparr>
                 (3 / 1000) ''gpt-4o-mini'') \<and>
   requested_labels (url several_languages) =
     [''English'', ''Spanish'', ''French'', ''Spanish'', ''German''] \<and>
   card (set (requested_labels (url several_languages))) = 4"
proof -
  let ?rs = "[Result ''English'' ''hola'' None, Result ''Spanish'' ''hola'' None,
              Result ''French'' ''hola'' None, Result ''German'' ''hola'' None]"
  have r: "snd (handleTranslateRequest answering several_languages started) =
     Json 200 (Success ''hola'' ?rs
                 \<lparr>prompt_tokens = 4000, completion_tokens = 4000, total_tokens = 8000\<rparr>
                 (3 / 1000) ''gpt-4o-mini'')"
    by code_simp
  have l: "requested_labels (url several_languages) =
     [''English'', ''Spanish'', ''French'', ''Spanish'', ''German'']"
    by code_simp
  have "handleTranslateRequest answering several_languages started =
     (fst (handleTranslateRequest answering several_languages started),
      Json 200 (Success ''hola'' ?rs
                 \<lparr>prompt_tokens = 4000, completion_tokens = 4000, total_tokens = 8000\<rparr>
                 (3 / 1000) ''gpt-4o-mini''))"
    using r by (metis surjective_pairing)
  from one_result_per_exact_label [OF this] l
  have "length ?rs = card (set (requested_labels (url several_languages)))"
    by simp
  with r l show ?thesis by simp
qed

text \<open>Claim C4 as stated fails: the labels \<open>English\<close> and \<open>english\<close> are one language
  without regard to case, and the submit returns two results.\<close>

theorem one_result_per_exact_label_counterexample:
  "snd (handleTranslateRequest answering english_twice started) =
     Json 200 (Success ''hola'' [Result ''English'' ''hola'' None, Result ''english'' ''hola'' None]
                 \<lparr>prompt_tokens = 2000, completion_tokens = 2000, total_tokens = 4000\<rparr>
                 (3 / 2000) ''gpt-4o-mini'') \<and>
   map toLowerCase (requested_labels (url english_twice)) = [''english'', ''english'']"
  by code_simp

subsection \<open>A failure inside the fan-out\<close>

lemma refineTranscript_ok_sent:
  "refineTranscript env raw l s = (s', Inr v) \<Longrightarrow> \<forall>p \<in> set (sent_between s s'). snd p"
  by (auto simp: refineTranscript_def sent_between_same
      split: option.splits if_splits prod.splits sum.splits dest!: fetch_ok_sent)

lemma transcribeAudio_ok_sent:
  "transcribeAudio env b l m s = (s', Inr v) \<Longrightarrow> \<forall>p \<in> set (sent_between s s'). snd p"
  by (auto simp: transcribeAudio_def Let_def dest!: fetch_ok_sent)

lemma submit_pipeline_200_ok_sent:
  assumes "submit_pipeline env req s0 = (s', Json 200 b)"
  shows "\<forall>p \<in> set (sent_between s0 s'). snd p"
  using assms
proof (rule submit_pipeline_200)
  fix audio s1 raw s2 transcript outs results
  let ?src = "or_default (get (url req) ''sourceLang'') []"
  let ?branch = "translateBranch env (submit_room req) transcript
               (or_default (get (url req) ''context'') [])
               (or_default (get (url req) ''outputMode'') ''text'' = ''audio'' \<or>
                or_default (get (url req) ''outputMode'') ''text'' = ''both'')"
  assume t: "transcribeAudio env audio ?src
       (normalizeMimeType
          (if or_default (x_audio_mime_type req) [] \<noteq> [] then x_audio_mime_type req
           else content_type req)) s0 = (s1, Inr raw)"
    and rf: "refineTranscript env raw ?src s1 = (s2, Inr transcript)"
    and f: "fanout ?branch (parseTargetLanguages (url req)) s2 = (s', outs)"
    and p: "Promise_all outs = Inr results"
  have g1: "grows s0 s1" using t by (rule transcribeAudio_grows)
  have g2: "grows s1 s2" using rf by (rule refineTranscript_grows)
  have g3: "grows s2 s'" by (rule fanout_grows [OF translateBranch_grows f])
  have "sent_between s0 s' = sent_between s0 s1 @ sent_between s1 s2 @ sent_between s2 s'"
    using sent_between_trans [OF g1 grows_trans [OF g2 g3]] sent_between_trans [OF g2 g3]
    by simp
  with transcribeAudio_ok_sent [OF t] refineTranscript_ok_sent [OF rf] fanout_ok_sent [OF f p]
  show ?thesis by auto
qed

lemma handleTranslateRequest_failed_request:
  assumes "handleTranslateRequest env req s = (s', resp)"
    and "(c, False) \<in> set (sent_between s s')"
  shows "\<exists>msg. resp = Json 500 (ErrorBody msg)"
proof -
  let ?s0 = "s\<lparr>roomPasscodes := (roomPasscodes s)(submit_room req \<mapsto> submit_passcode req)\<rparr>"
  have same: "sent_between s s' = sent_between ?s0 s'"
    by (simp add: sent_between_def)
  have unchanged: False if "s' = s"
    using that assms(2) by (simp add: sent_between_def)
  have pipe: "submit_pipeline env req ?s0 = (s', resp)"
    using assms(1) unchanged by (auto simp: handleTranslateRequest_unfold split: if_splits)
  from submit_pipeline_status [OF pipe] show ?thesis
  proof (elim disjE exE conjE)
    fix m assume "resp = Json 500 (ErrorBody m)"
    then show ?thesis by blast
  next
    assume "s' = ?s0"
    with assms(2) same show ?thesis by (simp add: sent_between_def)
  next
    fix b assume "resp = Json 200 b"
    with pipe submit_pipeline_200_ok_sent [of env req ?s0 s' b] assms(2) same
    show ?thesis by auto
  qed
qed

text \<open>
  Claim C3, as amended. When a speech synthesis request of a submit fails, the submit is
  answered with status 500 and an error message: the caller receives no result of any
  language, whatever the other branches have completed.
\<close>

theorem synthesis_failure_fails_the_request:
  assumes "handleTranslateRequest env req s = (s', resp)"
    and "(Speech m t v, False) \<in> set (sent_between s s')"
  shows "\<exists>msg. resp = Json 500 (ErrorBody msg)"
  using assms by (rule handleTranslateRequest_failed_request)

text \<open>The theorem at a submit for Cantonese and Spanish with audio output, where the
  second synthesis fails.\<close>

theorem synthesis_failure_fails_the_request_witness:
  "(Speech ''gpt-4o-mini-tts'' ''hola'' ''alloy'', False) \<in>
     set (sent_between cantonese_listener
            (fst (handleTranslateRequest speech_once two_languages_audio cantonese_listener))) \<and>
   (\<exists>msg. snd (handleTranslateRequest speech_once two_languages_audio cantonese_listener) =
            Json 500 (ErrorBody msg))"
proof -
  have f: "(Speech ''gpt-4o-mini-tts'' ''hola'' ''alloy'', False) \<in>
     set (sent_between cantonese_listener
            (fst (handleTranslateRequest speech_once two_languages_audio cantonese_listener)))"
    by code_simp
  from synthesis_failure_fails_the_request [OF surjective_pairing f] f show ?thesis by blast
qed

text \<open>Claim C3 as stated fails: the Cantonese branch completes (its result is published
  to the listener of \<open>r1:cantonese\<close>), the synthesis for Spanish fails, and the caller
  is answered with the error alone.\<close>

theorem synthesis_failure_counterexample:
  "snd (handleTranslateRequest speech_once two_languages_audio cantonese_listener) =
     Json 500 (ErrorBody ''OpenAI request failed (500): tts failed'') \<and>
   delivered (fst (handleTranslateRequest speech_once two_languages_audio cantonese_listener)) =
     [(7, Data (Ready ''r1:cantonese'')),
      (7, Data (Translation ''r1'' ''Cantonese'' ''hola'' ''hola'' (Some ''AQID'')))]"
  by code_simp

subsection \<open>The passcode of a room\<close>

lemma handleTranslateRequest_keeps_passcode:
  assumes "roomPasscodes s R = Some P" "P \<noteq> []"
  shows "roomPasscodes (fst (handleTranslateRequest env req s)) R = Some P"
proof -
  let ?s0 = "s\<lparr>roomPasscodes := (roomPasscodes s)(submit_room req \<mapsto> submit_passcode req)\<rparr>"
  have "fst (handleTranslateRequest env req s) = s \<or>
        (handleTranslateRequest env req s = submit_pipeline env req ?s0 \<and>
         \<not> (case roomPasscodes s (submit_room req) of None \<Rightarrow> False
            | Some existing \<Rightarrow> existing \<noteq> [] \<and> existing \<noteq> submit_passcode req))"
    by (simp add: handleTranslateRequest_unfold)
  then show ?thesis
  proof (elim disjE conjE)
    assume "fst (handleTranslateRequest env req s) = s"
    with assms show ?thesis by simp
  next
    assume pipeline: "handleTranslateRequest env req s = submit_pipeline env req ?s0"
      and through: "\<not> (case roomPasscodes s (submit_room req) of None \<Rightarrow> False
            | Some existing \<Rightarrow> existing \<noteq> [] \<and> existing \<noteq> submit_passcode req)"
    have "grows ?s0 (fst (submit_pipeline env req ?s0))"
      by (rule submit_pipeline_grows [OF surjective_pairing])
    then have "roomPasscodes (fst (handleTranslateRequest env req s)) = roomPasscodes ?s0"
      using pipeline by (simp add: grows_def)
    moreover have "roomPasscodes ?s0 R = Some P"
      using assms through by (cases "submit_room req = R") auto
    ultimately show ?thesis by simp
  qed
qed

lemma fold_res_write_roomPasscodes:
  "roomPasscodes (fold (\<lambda>x. res_write (g x) (f x)) xs s) = roomPasscodes s"
  by (induction xs arbitrary: s) (simp_all add: res_write_def)

lemma removeSubscriber_roomPasscodes: "roomPasscodes (removeSubscriber ch res s) = roomPasscodes s"
  by (simp add: removeSubscriber_def Let_def split: option.splits)

lemma fold_removeSubscriber_roomPasscodes:
  "roomPasscodes (fold (\<lambda>p. removeSubscriber (snd p) res) xs s) = roomPasscodes s"
  by (induction xs arbitrary: s) (simp_all add: removeSubscriber_roomPasscodes)

lemma handleSubscribeRequest_roomPasscodes:
  "roomPasscodes (fst (handleSubscribeRequest res q s)) = roomPasscodes s"
  by (simp add: handleSubscribeRequest_def Let_def addSubscriber_def res_write_def
      split: option.splits)

lemma step_keeps_passcode:
  "roomPasscodes s R = Some P \<Longrightarrow> P \<noteq> [] \<Longrightarrow> roomPasscodes (step env s ev) R = Some P"
proof (cases ev)
  case (SubmitAudio req)
  assume "roomPasscodes s R = Some P" "P \<noteq> []"
  then show ?thesis using SubmitAudio by (simp add: handleTranslateRequest_keeps_passcode)
next
  case (SubscribeTo res q)
  assume "roomPasscodes s R = Some P"
  then show ?thesis using SubscribeTo by (simp add: handleSubscribeRequest_roomPasscodes)
next
  case (SocketGone res)
  assume "roomPasscodes s R = Some P"
  then show ?thesis using SocketGone by simp
next
  case (Closed res)
  assume "roomPasscodes s R = Some P"
  then show ?thesis using Closed
    by (simp add: on_close_def Let_def fold_removeSubscriber_roomPasscodes)
next
  case (Tick res)
  assume "roomPasscodes s R = Some P"
  then show ?thesis using Tick
    by (simp add: keepAlive_def fold_res_write_roomPasscodes)
qed

lemma run_keeps_passcode:
  "roomPasscodes s R = Some P \<Longrightarrow> P \<noteq> [] \<Longrightarrow> roomPasscodes (run env s evs) R = Some P"
  unfolding run_def
  by (induction evs arbitrary: s) (simp_all add: step_keeps_passcode)

lemma first_submit_binds:
  assumes "OPENAI_API_KEY env \<noteq> []" "roomPasscodes s (submit_room req) = None"
    "submit_passcode req \<noteq> []"
  shows "roomPasscodes (fst (handleTranslateRequest env req s)) (submit_room req) =
           Some (submit_passcode req)"
proof -
  let ?s0 = "s\<lparr>roomPasscodes := (roomPasscodes s)(submit_room req \<mapsto> submit_passcode req)\<rparr>"
  have "grows ?s0 (fst (submit_pipeline env req ?s0))"
    by (rule submit_pipeline_grows [OF surjective_pairing])
  with assms show ?thesis
    by (simp add: handleTranslateRequest_unfold grows_def)
qed

lemma bound_mismatch:
  assumes "OPENAI_API_KEY env \<noteq> []" "roomPasscodes s (submit_room req) = Some P" "P \<noteq> []"
    "submit_passcode req \<noteq> []" "submit_passcode req \<noteq> P"
  shows "handleTranslateRequest env req s = (s, Json 403 (ErrorBody ''Room passcode mismatch''))"
  using assms by (simp add: handleTranslateRequest_unfold)

lemma bound_match:
  assumes "OPENAI_API_KEY env \<noteq> []" "roomPasscodes s (submit_room req) = Some P" "P \<noteq> []"
    "submit_passcode req = P"
  shows "handleTranslateRequest env req s = submit_pipeline env req s"
proof -
  have "(roomPasscodes s)(submit_room req \<mapsto> P) = roomPasscodes s"
    using assms(2) by (rule map_upd_triv)
  with assms show ?thesis by (simp add: handleTranslateRequest_unfold)
qed

lemma answering_key: "OPENAI_API_KEY answering \<noteq> []"
  by (simp add: answering_def)

lemma started_unbound: "roomPasscodes started R = None"
  by (simp add: started_def)

text \<open>
  Claim C1, as amended. When a submit request with a passcode \<open>P1\<close> that is not empty
  (after trimming) arrives for a room without a passcode, \<open>P1\<close> is bound to the room and
  stays bound through every later event. Every later submit request on the room whose
  passcode is not empty and differs from \<open>P1\<close> is answered with status 403 and changes
  nothing; every later submit request on the room with the passcode \<open>P1\<close> passes the
  passcode checks and goes on to the processing of its audio, so that its answer is the
  200 of a success, the 400 of an empty body or the 500 of a failure, never a 403.
\<close>

theorem passcode_binding_persists:
  assumes key: "OPENAI_API_KEY env \<noteq> []"
    and unbound: "roomPasscodes s (submit_room r1) = None"
    and p1: "submit_passcode r1 \<noteq> []"
    and later: "s1 = run env (fst (handleTranslateRequest env r1 s)) evs"
    and room: "submit_room r2 = submit_room r1"
  shows "roomPasscodes s1 (submit_room r1) = Some (submit_passcode r1) \<and>
         (submit_passcode r2 \<noteq> [] \<and> submit_passcode r2 \<noteq> submit_passcode r1 \<longrightarrow>
            handleTranslateRequest env r2 s1 = (s1, Json 403 (ErrorBody ''Room passcode mismatch''))) \<and>
         (submit_passcode r2 = submit_passcode r1 \<longrightarrow>
            handleTranslateRequest env r2 s1 = submit_pipeline env r2 s1 \<and>
            ((\<exists>m. snd (handleTranslateRequest env r2 s1) = Json 500 (ErrorBody m)) \<or>
             snd (handleTranslateRequest env r2 s1) = Json 400 (ErrorBody ''No audio content received.'') \<or>
             (\<exists>b. snd (handleTranslateRequest env r2 s1) = Json 200 b)))"
proof -
  have bound: "roomPasscodes s1 (submit_room r1) = Some (submit_passcode r1)"
    unfolding later
    using first_submit_binds [OF key unbound p1] p1 by (rule run_keeps_passcode)
  then have bound2: "roomPasscodes s1 (submit_room r2) = Some (submit_passcode r1)"
    by (simp add: room)
  have mismatch: "handleTranslateRequest env r2 s1 = (s1, Json 403 (ErrorBody ''Room passcode mismatch''))"
    if "submit_passcode r2 \<noteq> []" "submit_passcode r2 \<noteq> submit_passcode r1"
    using key bound2 p1 that by (rule bound_mismatch)
  have match: "handleTranslateRequest env r2 s1 = submit_pipeline env r2 s1"
    if "submit_passcode r2 = submit_passcode r1"
    using key bound2 p1 that by (rule bound_match)
  have status: "(\<exists>m. snd (handleTranslateRequest env r2 s1) = Json 500 (ErrorBody m)) \<or>
             snd (handleTranslateRequest env r2 s1) = Json 400 (ErrorBody ''No audio content received.'') \<or>
             (\<exists>b. snd (handleTranslateRequest env r2 s1) = Json 200 b)"
    if "submit_passcode r2 = submit_passcode r1"
    using submit_pipeline_status [OF surjective_pairing, of env r2 s1] match [OF that] by auto
  from bound mismatch match status show ?thesis by blast
qed

text \<open>The theorem after a first submit that binds \<open>abc\<close> to \<open>r1\<close> and the events of a
  busy process, at the later passcodes \<open>xyz\<close> and \<open>abc\<close>.\<close>

theorem passcode_binding_persists_witness:
  "roomPasscodes later_r1 ''r1'' = Some ''abc'' \<and>
   handleTranslateRequest answering (submit_of [(''room'', ''r1''), (''passcode'', ''xyz'')] [1]) later_r1 =
     (later_r1, Json 403 (ErrorBody ''Room passcode mismatch'')) \<and>
   handleTranslateRequest answering (submit_of [(''room'', ''r1''), (''passcode'', ''abc'')] [1]) later_r1 =
     submit_pipeline answering (submit_of [(''room'', ''r1''), (''passcode'', ''abc'')] [1]) later_r1 \<and>
   snd (handleTranslateRequest answering (submit_of [(''room'', ''r1''), (''passcode'', ''abc'')] [1]) later_r1) =
     Json 200 (Success ''hola'' [Result ''English'' ''hola'' None]
                 \<lparr>prompt_tokens = 3000, completion_tokens = 3000, total_tokens = 6000\<rparr>
                 (9 / 4000) ''gpt-4o-mini'')"
proof -
  let ?r1 = "submit_of [(''room'', ''r1''), (''passcode'', ''abc'')] [1]"
  have p1: "submit_passcode ?r1 \<noteq> []"
    by (simp add: submit_of_reads trim_examples)
  have later: "later_r1 = run answering (fst (handleTranslateRequest answering ?r1 started)) busy_events"
    by (simp add: later_r1_def bound_r1_def)
  have room: "submit_room (submit_of [(''room'', ''r1''), (''passcode'', p)] [1]) = submit_room ?r1" for p
    by (simp add: submit_of_reads)
  note T = passcode_binding_persists [OF answering_key started_unbound p1 later room]
  have ok: "snd (handleTranslateRequest answering ?r1 later_r1) =
     Json 200 (Success ''hola'' [Result ''English'' ''hola'' None]
                 \<lparr>prompt_tokens = 3000, completion_tokens = 3000, total_tokens = 6000\<rparr>
                 (9 / 4000) ''gpt-4o-mini'')"
    by code_simp
  from T [of "''xyz''"] T [of "''abc''"]
  have "roomPasscodes later_r1 ''r1'' = Some ''abc'' \<and>
     handleTranslateRequest answering (submit_of [(''room'', ''r1''), (''passcode'', ''xyz'')] [1]) later_r1 =
       (later_r1, Json 403 (ErrorBody ''Room passcode mismatch'')) \<and>
     handleTranslateRequest answering ?r1 later_r1 = submit_pipeline answering ?r1 later_r1"
    by (simp add: submit_of_reads trim_examples)
  with ok show ?thesis by blast
qed

text \<open>Claim C1 as stated fails at the empty passcode, which differs from the bound one:
  the later request is answered with the validation error 400, not with the
  authorization error 403.\<close>

theorem passcode_binding_counterexample:
  "roomPasscodes bound_r1 ''r1'' = Some ''abc'' \<and>
   snd (handleTranslateRequest answering (submit_of [(''room'', ''r1''), (''passcode'', [])] [1]) bound_r1) =
     Json 400 (ErrorBody ''Missing passcode'')"
  by (simp add: bound_r1_passcode handleTranslateRequest_unfold answering_key submit_of_reads
      trim_examples)

text \<open>
  Claim C10. A submit request for a room without a passcode, with a passcode that is not
  empty and an empty body, is answered with status 400, and its passcode is bound to the
  room all the same: a later submit request on the room that presents another passcode is
  answered with the 403 of a mismatch.
\<close>

theorem empty_audio_still_binds:
  assumes key: "OPENAI_API_KEY env \<noteq> []"
    and unbound: "roomPasscodes s (submit_room r1) = None"
    and p1: "submit_passcode r1 \<noteq> []"
    and empty: "payload_read r1 = Inr []"
    and later: "s1 = run env (fst (handleTranslateRequest env r1 s)) evs"
    and room: "submit_room r2 = submit_room r1"
    and p2: "submit_passcode r2 \<noteq> []" "submit_passcode r2 \<noteq> submit_passcode r1"
  shows "snd (handleTranslateRequest env r1 s) = Json 400 (ErrorBody ''No audio content received.'') \<and>
         roomPasscodes (fst (handleTranslateRequest env r1 s)) (submit_room r1) =
           Some (submit_passcode r1) \<and>
         handleTranslateRequest env r2 s1 = (s1, Json 403 (ErrorBody ''Room passcode mismatch''))"
proof -
  have a: "snd (handleTranslateRequest env r1 s) = Json 400 (ErrorBody ''No audio content received.'')"
    using key unbound p1 empty
    by (simp add: handleTranslateRequest_unfold submit_pipeline_no_audio)
  have b: "roomPasscodes (fst (handleTranslateRequest env r1 s)) (submit_room r1) =
           Some (submit_passcode r1)"
    using key unbound p1 by (rule first_submit_binds)
  have bound: "roomPasscodes s1 (submit_room r2) = Some (submit_passcode r1)"
    unfolding later room using b p1 by (rule run_keeps_passcode)
  have c: "handleTranslateRequest env r2 s1 = (s1, Json 403 (ErrorBody ''Room passcode mismatch''))"
    using key bound p1 p2 by (rule bound_mismatch)
  from a b c show ?thesis by blast
qed

text \<open>The theorem at a first submit with the passcode \<open>abc\<close> and no audio, and a later
  submit with the passcode \<open>xyz\<close>.\<close>

theorem empty_audio_still_binds_witness:
  "snd (handleTranslateRequest answering (submit_of [(''room'', ''r1''), (''passcode'', ''abc'')] []) started) =
     Json 400 (ErrorBody ''No audio content received.'') \<and>
   roomPasscodes
     (fst (handleTranslateRequest answering (submit_of [(''room'', ''r1''), (''passcode'', ''abc'')] []) started))
     ''r1'' = Some ''abc'' \<and>
   snd (handleTranslateRequest answering (submit_of [(''room'', ''r1''), (''passcode'', ''xyz'')] [1])
          (run answering
             (fst (handleTranslateRequest answering
                     (submit_of [(''room'', ''r1''), (''passcode'', ''abc'')] []) started))
             busy_events)) =
     Json 403 (ErrorBody ''Room passcode mismatch'')"
proof -
  let ?r1 = "submit_of [(''room'', ''r1''), (''passcode'', ''abc'')] []"
  let ?r2 = "submit_of [(''room'', ''r1''), (''passcode'', ''xyz'')] [1]"
  have p1: "submit_passcode ?r1 \<noteq> []"
    by (simp add: submit_of_reads trim_examples)
  have empty: "payload_read ?r1 = Inr []"
    by (simp add: submit_of_reads)
  have room: "submit_room ?r2 = submit_room ?r1"
    by (simp add: submit_of_reads)
  have p2: "submit_passcode ?r2 \<noteq> []" "submit_passcode ?r2 \<noteq> submit_passcode ?r1"
    by (simp_all add: submit_of_reads trim_examples)
  from empty_audio_still_binds [OF answering_key started_unbound p1 empty refl room p2,
      of busy_events]
  show ?thesis
    by (simp add: submit_of_reads trim_examples)
qed

subsection \<open>Subscribing to the channel of another room\<close>

lemma grows_listeners: "grows s s' \<Longrightarrow> listeners s' ch = listeners s ch"
  by (simp add: grows_def listeners_def)

lemma grows_destroyed: "grows s s' \<Longrightarrow> destroyed s' = destroyed s"
  by (simp add: grows_def)

lemma grows_delivered: "grows s s' \<Longrightarrow> x \<in> set (delivered s) \<Longrightarrow> x \<in> set (delivered s')"
  by (auto simp: grows_def prefix_def)

lemma broadcast_reaches:
  "res \<in> set (listeners s ch) \<Longrightarrow> res \<notin> set (destroyed s) \<Longrightarrow>
   (res, Data pl) \<in> set (delivered (broadcast ch pl s))"
  by (simp add: broadcast_delivered)

lemma fanout_delivers:
  "fanout (translateBranch env room transcript c w) ls s = (s', outs) \<Longrightarrow>
   Promise_all outs = Inr results \<Longrightarrow> l \<in> set ls \<Longrightarrow>
   res \<in> set (listeners s (channelName room l)) \<Longrightarrow> res \<notin> set (destroyed s) \<Longrightarrow>
   \<exists>tr audio. Result l tr audio \<in> set results \<and>
              (res, Data (Translation room l transcript tr audio)) \<in> set (delivered s')"
proof (induction ls arbitrary: s outs results)
  case Nil
  then show ?case by simp
next
  case (Cons l' ls)
  from Cons.prems(1) obtain s1 r rs where
    b: "translateBranch env room transcript c w l' s = (s1, r)" and
    f: "fanout (translateBranch env room transcript c w) ls s1 = (s', rs)" and o: "outs = r # rs"
    by (rule fanout_Cons)
  from Cons.prems(2) o obtain v vs where r: "r = Inr v" and p: "Promise_all rs = Inr vs"
    and res: "results = v # vs"
    by (auto dest: Promise_all_Cons)
  have g1: "grows s s1" using b by (rule translateBranch_grows)
  have g2: "grows s1 s'" by (rule fanout_grows [OF translateBranch_grows f])
  show ?case
  proof (cases "l = l'")
    case True
    from b [unfolded r] obtain s2 tr audio where
      v: "v = Result l' tr audio" and g: "grows s s2" and
      s1: "s1 = broadcast (channelName room l') (Translation room l' transcript tr audio) s2"
      by (rule translateBranch_Inr)
    have "res \<in> set (listeners s2 (channelName room l'))" "res \<notin> set (destroyed s2)"
      using Cons.prems(4,5) True grows_listeners [OF g] grows_destroyed [OF g] by simp_all
    then have "(res, Data (Translation room l' transcript tr audio)) \<in> set (delivered s1)"
      unfolding s1 by (rule broadcast_reaches)
    then have "(res, Data (Translation room l' transcript tr audio)) \<in> set (delivered s')"
      by (rule grows_delivered [OF g2])
    with True v res show ?thesis by auto
  next
    case False
    with Cons.prems(3) have "l \<in> set ls" by simp
    moreover have "res \<in> set (listeners s1 (channelName room l))" "res \<notin> set (destroyed s1)"
      using Cons.prems(4,5) grows_listeners [OF g1] grows_destroyed [OF g1] by simp_all
    ultimately obtain tr audio where "Result l tr audio \<in> set vs"
      "(res, Data (Translation room l transcript tr audio)) \<in> set (delivered s')"
      using Cons.IH [OF f p] by blast
    with res show ?thesis by auto
  qed
qed

lemma handleTranslateRequest_delivers:
  assumes ok: "handleTranslateRequest env req s = (s', Json 200 (Success transcript results u c m))"
    and l: "l \<in> set (parseTargetLanguages (url req))"
    and listening: "res \<in> set (listeners s (channelName (submit_room req) l))"
    and alive: "res \<notin> set (destroyed s)"
  shows "\<exists>tr audio. Result l tr audio \<in> set results \<and>
           (res, Data (Translation (submit_room req) l transcript tr audio)) \<in> set (delivered s')"
proof -
  let ?s0 = "s\<lparr>roomPasscodes := (roomPasscodes s)(submit_room req \<mapsto> submit_passcode req)\<rparr>"
  from handleTranslateRequest_200 [OF ok] show ?thesis
  proof (rule submit_pipeline_200)
    fix audio s1 raw s2 transcript' outs results'
    let ?src = "or_default (get (url req) ''sourceLang'') []"
    let ?branch = "translateBranch env (submit_room req) transcript'
               (or_default (get (url req) ''context'') [])
               (or_default (get (url req) ''outputMode'') ''text'' = ''audio'' \<or>
                or_default (get (url req) ''outputMode'') ''text'' = ''both'')"
    assume t: "transcribeAudio env audio ?src
       (normalizeMimeType
          (if or_default (x_audio_mime_type req) [] \<noteq> [] then x_audio_mime_type req
           else content_type req)) ?s0 = (s1, Inr raw)"
      and rf: "refineTranscript env raw ?src s1 = (s2, Inr transcript')"
      and f: "fanout ?branch (parseTargetLanguages (url req)) s2 = (s', outs)"
      and p: "Promise_all outs = Inr results'"
      and b: "Success transcript results u c m =
              Success transcript' results' (sessionUsage s') (estimateCost env s') (OPENAI_TRANSLATE_MODEL env)"
    have g: "grows ?s0 s2"
      using transcribeAudio_grows [OF t] refineTranscript_grows [OF rf] by (rule grows_trans)
    have "res \<in> set (listeners s2 (channelName (submit_room req) l))" "res \<notin> set (destroyed s2)"
      using listening alive grows_listeners [OF g] grows_destroyed [OF g]
      by (simp_all add: listeners_def)
    from fanout_delivers [OF f p l this] b show ?thesis by simp
  qed
qed

lemma handleSubscribeRequest_accepts:
  assumes "roomPasscodes s (subscribe_room q) = None" "get q ''channel'' = Some ch" "ch \<noteq> []"
  shows "snd (handleSubscribeRequest res q s) = EventStream"
    "res \<in> set (listeners (fst (handleSubscribeRequest res q s)) ch)"
    "destroyed (fst (handleSubscribeRequest res q s)) = destroyed s"
  using assms
  by (auto simp: handleSubscribeRequest_def subscribe_room_def Let_def or_default_def
      addSubscriber_def res_write_def listeners_def set_add_set split: option.splits)

lemma handleSubscribeRequest_response:
  assumes "get q ''channel'' = Some ch" "ch \<noteq> []"
  shows "snd (handleSubscribeRequest res q s) =
           (if (\<exists>bound. roomPasscodes s (subscribe_room q) = Some bound \<and> bound \<noteq> [] \<and>
                         bound \<noteq> subscribe_passcode q)
            then Json 403 (ErrorBody ''Invalid passcode'') else EventStream)"
  using assms
  by (auto simp: handleSubscribeRequest_def subscribe_room_def subscribe_passcode_def Let_def
      or_default_def split: option.splits)

text \<open>
  Claim C2. Whether a subscribe request with a channel is accepted depends on its room
  and its passcode only: it is refused with status 403 exactly when the room has a bound
  passcode that differs from the passcode of the request, whatever the channel. So a
  subscribe request whose room has no bound passcode is accepted for every channel that
  is not empty, and the connection is registered on the channel it names, whatever room
  that channel belongs to. When the channel is the channel of a room and a language, every
  successful submit to that room for that language writes its translation event on the
  subscriber's connection (while the socket is there), although the subscriber never
  presented the passcode of that room.
\<close>

theorem subscription_gate_ignores_channel:
  assumes channel: "get q ''channel'' = Some ch" "ch \<noteq> []"
  shows "snd (handleSubscribeRequest res q s) =
           (if (\<exists>bound. roomPasscodes s (subscribe_room q) = Some bound \<and> bound \<noteq> [] \<and>
                         bound \<noteq> subscribe_passcode q)
            then Json 403 (ErrorBody ''Invalid passcode'') else EventStream) \<and>
         (roomPasscodes s (subscribe_room q) = None \<longrightarrow>
            snd (handleSubscribeRequest res q s) = EventStream \<and>
            res \<in> set (listeners (fst (handleSubscribeRequest res q s)) ch) \<and>
            (\<forall>env req l s' transcript results u c m.
               ch = channelName (submit_room req) l \<longrightarrow>
               res \<notin> set (destroyed s) \<longrightarrow>
               l \<in> set (parseTargetLanguages (url req)) \<longrightarrow>
               handleTranslateRequest env req (fst (handleSubscribeRequest res q s)) =
                 (s', Json 200 (Success transcript results u c m)) \<longrightarrow>
               (\<exists>tr audio. Result l tr audio \<in> set results \<and>
                  (res, Data (Translation (submit_room req) l transcript tr audio)) \<in>
                    set (delivered s'))))"
proof -
  have leak: "snd (handleSubscribeRequest res q s) = EventStream \<and>
            res \<in> set (listeners (fst (handleSubscribeRequest res q s)) ch) \<and>
            (\<forall>env req l s' transcript results u c m.
               ch = channelName (submit_room req) l \<longrightarrow>
               res \<notin> set (destroyed s) \<longrightarrow>
               l \<in> set (parseTargetLanguages (url req)) \<longrightarrow>
               handleTranslateRequest env req (fst (handleSubscribeRequest res q s)) =
                 (s', Json 200 (Success transcript results u c m)) \<longrightarrow>
               (\<exists>tr audio. Result l tr audio \<in> set results \<and>
                  (res, Data (Translation (submit_room req) l transcript tr audio)) \<in>
                    set (delivered s')))"
    if unbound: "roomPasscodes s (subscribe_room q) = None"
  proof -
    note acc = handleSubscribeRequest_accepts [OF unbound channel, of res]
    have "\<exists>tr audio. Result l tr audio \<in> set results \<and>
               (res, Data (Translation (submit_room req) l transcript tr audio)) \<in> set (delivered s')"
      if "ch = channelName (submit_room req) l" "res \<notin> set (destroyed s)"
        "l \<in> set (parseTargetLanguages (url req))"
        "handleTranslateRequest env req (fst (handleSubscribeRequest res q s)) =
              (s', Json 200 (Success transcript results u c m))"
      for env req l s' transcript results u c m
      using that(4,3) acc(2) [unfolded that(1)] that(2) [folded acc(3)]
      by (rule handleTranslateRequest_delivers)
    with acc(1,2) show ?thesis by blast
  qed
  from handleSubscribeRequest_response [OF channel, of res s] leak show ?thesis
    by blast
qed

text \<open>The theorem in a process where \<open>abc\<close> is bound to \<open>r1\<close>: connection 9 cites
  the room \<open>lobby\<close>, names the channel \<open>r1:spanish\<close>, and receives the translation of
  the next submit to \<open>r1\<close>.\<close>

theorem subscription_gate_ignores_channel_witness:
  "roomPasscodes bound_r1 ''r1'' = Some ''abc'' \<and>
   snd (handleSubscribeRequest 9 eavesdrop bound_r1) = EventStream \<and>
   (9, Data (Translation ''r1'' ''Spanish'' ''hola'' ''hola'' None)) \<in>
     set (delivered (fst (handleTranslateRequest answering spanish_r1
                            (fst (handleSubscribeRequest 9 eavesdrop bound_r1)))))"
proof -
  let ?s1 = "fst (handleSubscribeRequest 9 eavesdrop bound_r1)"
  have unbound: "roomPasscodes bound_r1 (subscribe_room eavesdrop) = None"
    by code_simp
  have channel: "get eavesdrop ''channel'' = Some ''r1:spanish''" "''r1:spanish'' \<noteq> []"
    by (simp_all add: eavesdrop_def get_def)
  have name: "''r1:spanish'' = channelName (submit_room spanish_r1) ''Spanish''"
    by code_simp
  have alive: "9 \<notin> set (destroyed bound_r1)"
    by code_simp
  have lang: "''Spanish'' \<in> set (parseTargetLanguages (url spanish_r1))"
    by code_simp
  have room: "submit_room spanish_r1 = ''r1''"
    by code_simp
  have "snd (handleTranslateRequest answering spanish_r1 ?s1) =
          Json 200 (Success ''hola'' [Result ''Spanish'' ''hola'' None]
                      \<lparr>prompt_tokens = 2000, completion_tokens = 2000, total_tokens = 4000\<rparr>
                      (3 / 2000) ''gpt-4o-mini'')"
    by code_simp
  then have ok: "handleTranslateRequest answering spanish_r1 ?s1 =
          (fst (handleTranslateRequest answering spanish_r1 ?s1),
           Json 200 (Success ''hola'' [Result ''Spanish'' ''hola'' None]
                      \<lparr>prompt_tokens = 2000, completion_tokens = 2000, total_tokens = 4000\<rparr>
                      (3 / 2000) ''gpt-4o-mini''))"
    by (metis surjective_pairing)
  note T = subscription_gate_ignores_channel [OF channel, of 9 bound_r1]
  from T unbound have accepted: "snd (handleSubscribeRequest 9 eavesdrop bound_r1) = EventStream"
    by blast
  from T unbound name alive lang ok
  have "\<exists>tr audio. Result ''Spanish'' tr audio \<in> set [Result ''Spanish'' ''hola'' None] \<and>
          (9, Data (Translation (submit_room spanish_r1) ''Spanish'' ''hola'' tr audio)) \<in>
            set (delivered (fst (handleTranslateRequest answering spanish_r1 ?s1)))"
    by blast
  then have "(9, Data (Translation ''r1'' ''Spanish'' ''hola'' ''hola'' None)) \<in>
            set (delivered (fst (handleTranslateRequest answering spanish_r1 ?s1)))"
    by (auto simp: room)
  with accepted bound_r1_passcode show ?thesis by blast
qed

subsection \<open>Requests rejected before any external call\<close>

lemma handleTranslateRequest_roomPasscodes:
  "roomPasscodes (fst (handleTranslateRequest env req s)) = roomPasscodes s \<or>
   (submit_passcode req \<noteq> [] \<and>
    roomPasscodes (fst (handleTranslateRequest env req s)) =
      (roomPasscodes s)(submit_room req \<mapsto> submit_passcode req))"
proof -
  let ?s0 = "s\<lparr>roomPasscodes := (roomPasscodes s)(submit_room req \<mapsto> submit_passcode req)\<rparr>"
  have "grows ?s0 (fst (submit_pipeline env req ?s0))"
    by (rule submit_pipeline_grows [OF surjective_pairing])
  then have "roomPasscodes (fst (submit_pipeline env req ?s0)) =
             (roomPasscodes s)(submit_room req \<mapsto> submit_passcode req)"
    by (simp add: grows_def)
  then show ?thesis
    by (simp add: handleTranslateRequest_unfold)
qed

lemma step_passcodes_nonempty:
  assumes "\<forall>R P. roomPasscodes s R = Some P \<longrightarrow> P \<noteq> []"
  shows "\<forall>R P. roomPasscodes (step env s ev) R = Some P \<longrightarrow> P \<noteq> []"
proof (cases ev)
  case (SubmitAudio req)
  with assms handleTranslateRequest_roomPasscodes [of env req s] show ?thesis
    by (auto split: if_splits) blast+
next
  case (SubscribeTo res q)
  with assms show ?thesis by (simp add: handleSubscribeRequest_roomPasscodes)
next
  case (SocketGone res)
  with assms show ?thesis by simp
next
  case (Closed res)
  with assms show ?thesis
    by (simp add: on_close_def Let_def fold_removeSubscriber_roomPasscodes)
next
  case (Tick res)
  with assms show ?thesis by (simp add: keepAlive_def fold_res_write_roomPasscodes)
qed

lemma run_passcodes_nonempty:
  "\<forall>R P. roomPasscodes s R = Some P \<longrightarrow> P \<noteq> [] \<Longrightarrow>
   \<forall>R P. roomPasscodes (run env s evs) R = Some P \<longrightarrow> P \<noteq> []"
  unfolding run_def
proof (induction evs arbitrary: s)
  case Nil
  then show ?case by simp
next
  case (Cons ev evs)
  from Cons.IH [OF step_passcodes_nonempty [OF Cons.prems]] show ?case by simp
qed

text \<open>A passcode that is bound in a run of the process is never empty.\<close>

lemma bound_passcode_nonempty:
  "roomPasscodes (run env started evs) R = Some P \<Longrightarrow> P \<noteq> []"
  using run_passcodes_nonempty [of started env evs] by (simp add: started_def)

lemma bound_r1_run:
  "bound_r1 = run answering started
                [SubmitAudio (submit_of [(''room'', ''r1''), (''passcode'', ''abc'')] [1])]"
  by (simp add: bound_r1_def run_def)

text \<open>
  Claim C5. In every state that a run of the process reaches, a submit request whose
  passcode is empty after trimming, or differs from the passcode bound to its room, or
  whose body is empty, is answered with an error (status 400, 403, or 500 when the API key
  is missing), and no request is sent to any external service: the history of requests is
  unchanged.
\<close>

theorem rejected_without_external_call:
  assumes reached: "s = run env started evs"
    and invalid:
      "submit_passcode req = [] \<or>
       (\<exists>existing. roomPasscodes s (submit_room req) = Some existing \<and>
                    existing \<noteq> submit_passcode req) \<or>
       payload_read req = Inr []"
  shows "\<exists>status msg. snd (handleTranslateRequest env req s) = Json status (ErrorBody msg) \<and>
                      status \<in> {400, 403, 500} \<and>
                      requests (fst (handleTranslateRequest env req s)) = requests s"
proof -
  have "existing \<noteq> []" if "roomPasscodes s (submit_room req) = Some existing" for existing
    using that unfolding reached by (rule bound_passcode_nonempty)
  with invalid show ?thesis
    by (auto simp: handleTranslateRequest_unfold submit_pipeline_no_audio split: option.splits)
qed

text \<open>The theorem at a blank passcode, at a passcode that differs from the bound one, and
  at an empty body.\<close>

theorem rejected_without_external_call_witness:
  "(\<exists>status msg.
      snd (handleTranslateRequest answering
             (submit_of [(''room'', ''r1''), (''passcode'', ''  '')] [1]) started) =
        Json status (ErrorBody msg) \<and> status \<in> {400, 403, 500} \<and>
      requests (fst (handleTranslateRequest answering
             (submit_of [(''room'', ''r1''), (''passcode'', ''  '')] [1]) started)) = requests started) \<and>
   (\<exists>status msg.
      snd (handleTranslateRequest answering
             (submit_of [(''room'', ''r1''), (''passcode'', ''xyz'')] [1]) bound_r1) =
        Json status (ErrorBody msg) \<and> status \<in> {400, 403, 500} \<and>
      requests (fst (handleTranslateRequest answering
             (submit_of [(''room'', ''r1''), (''passcode'', ''xyz'')] [1]) bound_r1)) = requests bound_r1) \<and>
   (\<exists>status msg.
      snd (handleTranslateRequest answering
             (submit_of [(''room'', ''r1''), (''passcode'', ''abc'')] []) bound_r1) =
        Json status (ErrorBody msg) \<and> status \<in> {400, 403, 500} \<and>
      requests (fst (handleTranslateRequest answering
             (submit_of [(''room'', ''r1''), (''passcode'', ''abc'')] []) bound_r1)) = requests bound_r1)"
proof -
  have s0: "started = run answering started []"
    by (simp add: run_def)
  have a: "submit_passcode (submit_of [(''room'', ''r1''), (''passcode'', ''  '')] [1]) = []"
    by (simp add: submit_of_reads trim_examples)
  have b: "\<exists>existing. roomPasscodes bound_r1
               (submit_room (submit_of [(''room'', ''r1''), (''passcode'', ''xyz'')] [1])) = Some existing \<and>
             existing \<noteq> submit_passcode (submit_of [(''room'', ''r1''), (''passcode'', ''xyz'')] [1])"
    by (simp add: submit_of_reads trim_examples bound_r1_passcode)
  have c: "payload_read (submit_of [(''room'', ''r1''), (''passcode'', ''abc'')] []) = Inr []"
    by (simp add: submit_of_reads)
  show ?thesis
    using rejected_without_external_call [OF s0 disjI1, OF a]
      rejected_without_external_call [OF bound_r1_run disjI2, OF disjI1, OF b]
      rejected_without_external_call [OF bound_r1_run disjI2, OF disjI2, OF c]
    by blast
qed

end
